theory Spec2Isabelle
  imports Main "HOL-Library.Sublist"
begin

section \<open>Go library functions used by the OpenBSD service code\<close>

text \<open>
  Go strings are byte sequences; they are modelled as \<open>string\<close> (a list of 8-bit
  characters).  The functions of this section model the parts of the Go standard library
  and of the golibs helpers that \<open>internal/home/service_openbsd.go\<close> calls.
\<close>

subsection \<open>Package strings\<close>

text \<open>\<open>strings.Join(elems, sep)\<close>.\<close>

fun strings_Join :: "string list \<Rightarrow> string \<Rightarrow> string" where
  "strings_Join [] sep = []"
| "strings_Join [e] sep = e"
| "strings_Join (e # es) sep = e @ sep @ strings_Join es sep"

text \<open>\<open>strings.Index(s, substr)\<close>: the index of the first occurrence, or \<open>-1\<close>.\<close>

fun strings_Index :: "string \<Rightarrow> string \<Rightarrow> int" where
  "strings_Index [] substr = (if substr = [] then 0 else - 1)"
| "strings_Index (c # t) substr =
     (if prefix substr (c # t) then 0
      else (let i = strings_Index t substr in if i < 0 then - 1 else i + 1))"

text \<open>
  \<open>strings.Split(s, sep)\<close> for a separator of one byte (the only use in the source is
  \<open>strings.Split(_, " ")\<close>): the pieces between the separators, at least one piece.
\<close>

fun strings_Split :: "string \<Rightarrow> char \<Rightarrow> string list" where
  "strings_Split [] sep = [[]]"
| "strings_Split (c # cs) sep =
     (if c = sep then [] # strings_Split cs sep
      else (case strings_Split cs sep of
              [] \<Rightarrow> [[c]]
            | w # ws \<Rightarrow> (c # w) # ws))"

text \<open>
  \<open>strings.TrimSpace\<close> removes leading and trailing white space as \<open>unicode.IsSpace\<close>
  defines it.  On a byte string these are the UTF-8 encodings of U+0009..U+000D, U+0020,
  U+0085, U+00A0, U+1680, U+2000..U+200A, U+2028, U+2029, U+202F, U+205F and U+3000.
\<close>

definition space_runes :: "string list" where
  "space_runes =
    [[CHR 0x09], [CHR 0x0A], [CHR 0x0B], [CHR 0x0C], [CHR 0x0D], [CHR 0x20],
     [CHR 0xC2, CHR 0x85], [CHR 0xC2, CHR 0xA0],
     [CHR 0xE1, CHR 0x9A, CHR 0x80],
     [CHR 0xE2, CHR 0x80, CHR 0x80], [CHR 0xE2, CHR 0x80, CHR 0x81],
     [CHR 0xE2, CHR 0x80, CHR 0x82], [CHR 0xE2, CHR 0x80, CHR 0x83],
     [CHR 0xE2, CHR 0x80, CHR 0x84], [CHR 0xE2, CHR 0x80, CHR 0x85],
     [CHR 0xE2, CHR 0x80, CHR 0x86], [CHR 0xE2, CHR 0x80, CHR 0x87],
     [CHR 0xE2, CHR 0x80, CHR 0x88], [CHR 0xE2, CHR 0x80, CHR 0x89],
     [CHR 0xE2, CHR 0x80, CHR 0x8A],
     [CHR 0xE2, CHR 0x80, CHR 0xA8], [CHR 0xE2, CHR 0x80, CHR 0xA9],
     [CHR 0xE2, CHR 0x80, CHR 0xAF],
     [CHR 0xE2, CHR 0x81, CHR 0x9F],
     [CHR 0xE3, CHR 0x80, CHR 0x80]]"

text \<open>The number of bytes of the white-space rune a string starts (ends) with, or 0.\<close>

definition space_prefix_len :: "string \<Rightarrow> nat" where
  "space_prefix_len s =
     (case find (\<lambda>w. prefix w s) space_runes of None \<Rightarrow> 0 | Some w \<Rightarrow> length w)"

definition space_suffix_len :: "string \<Rightarrow> nat" where
  "space_suffix_len s =
     (case find (\<lambda>w. suffix w s) space_runes of None \<Rightarrow> 0 | Some w \<Rightarrow> length w)"

lemma space_runes_nonempty: "w \<in> set space_runes \<Longrightarrow> w \<noteq> []"
  by (auto simp: space_runes_def)

lemma space_prefix_len_le: "space_prefix_len s \<le> length s"
  by (auto simp: space_prefix_len_def find_Some_iff prefix_def split: option.splits)

lemma space_suffix_len_le: "space_suffix_len s \<le> length s"
  by (auto simp: space_suffix_len_def find_Some_iff suffix_def split: option.splits)

function strings_TrimLeft_space :: "string \<Rightarrow> string" where
  "strings_TrimLeft_space s =
     (if space_prefix_len s = 0 then s
      else strings_TrimLeft_space (drop (space_prefix_len s) s))"
  by pat_completeness auto
termination
proof (relation "measure length")
  fix s :: string
  assume "space_prefix_len s \<noteq> 0"
  moreover have "space_prefix_len s \<le> length s" by (rule space_prefix_len_le)
  ultimately show "(drop (space_prefix_len s) s, s) \<in> measure length" by auto
qed simp

function strings_TrimRight_space :: "string \<Rightarrow> string" where
  "strings_TrimRight_space s =
     (if space_suffix_len s = 0 then s
      else strings_TrimRight_space (take (length s - space_suffix_len s) s))"
  by pat_completeness auto
termination
proof (relation "measure length")
  fix s :: string
  assume "space_suffix_len s \<noteq> 0"
  moreover have "space_suffix_len s \<le> length s" by (rule space_suffix_len_le)
  ultimately show "(take (length s - space_suffix_len s) s, s) \<in> measure length" by auto
qed simp

declare strings_TrimLeft_space.simps [simp del]
declare strings_TrimRight_space.simps [simp del]

definition strings_TrimSpace :: "string \<Rightarrow> string" where
  "strings_TrimSpace s = strings_TrimRight_space (strings_TrimLeft_space s)"

subsection \<open>Package path/filepath (Unix)\<close>

text \<open>
  \<open>filepath.Clean\<close>: the path is processed element by element; empty elements and
  \<open>.\<close> are dropped, \<open>..\<close> removes the element before it (at the root it is
  dropped, in a relative path it is kept when nothing is left to remove).  The stack of
  elements is held with its top first.
\<close>

fun clean_elem :: "bool \<Rightarrow> string list \<Rightarrow> string \<Rightarrow> string list" where
  "clean_elem rooted st e =
     (if e = [] \<or> e = ''.'' then st
      else if e = ''..'' then
        (case st of
           [] \<Rightarrow> (if rooted then [] else [''..''])
         | e' # rest \<Rightarrow> (if e' \<noteq> ''..'' then rest else if rooted then st else ''..'' # st))
      else e # st)"

definition filepath_Clean :: "string \<Rightarrow> string" where
  "filepath_Clean path =
     (if path = [] then ''.''
      else
        (let rooted = (hd path = CHR ''/'');
             st = foldl (clean_elem rooted) [] (strings_Split path (CHR ''/''));
             body = strings_Join (rev st) ''/''
         in if rooted then ''/'' @ body else if body = [] then ''.'' else body))"

text \<open>
  \<open>filepath.Join\<close>: the elements from the first non-empty one on are joined with the
  separator and the result is cleaned; the empty string when every element is empty.
\<close>

definition filepath_Join :: "string list \<Rightarrow> string" where
  "filepath_Join elem =
     (case dropWhile (\<lambda>e. e = []) elem of
        [] \<Rightarrow> []
      | es \<Rightarrow> filepath_Clean (strings_Join es ''/''))"

definition filepath_IsAbs :: "string \<Rightarrow> bool" where
  "filepath_IsAbs path = prefix ''/'' path"

text \<open>\<open>filepath.Abs\<close>; \<open>getwd\<close> is the result of \<open>os.Getwd()\<close>.\<close>

definition filepath_Abs :: "('e + string) \<Rightarrow> string \<Rightarrow> 'e + string" where
  "filepath_Abs getwd path =
     (if filepath_IsAbs path then Inr (filepath_Clean path)
      else (case getwd of
              Inl e \<Rightarrow> Inl e
            | Inr wd \<Rightarrow> Inr (filepath_Join [wd, path])))"

section \<open>Errors\<close>

text \<open>
  Go's \<open>error\<close> values.  \<open>Wrap msg e\<close> is \<open>fmt.Errorf("msg: %w", e)\<close>, the error
  with message \<open>msg: \<close> followed by the message of \<open>e\<close>, which it wraps; \<open>Errorf msg\<close>
  is an error made by \<open>fmt.Errorf\<close> without \<open>%w\<close>.  \<open>ErrTooLong\<close> is
  \<open>bufio.ErrTooLong\<close> and \<open>EOF\<close> is \<open>io.EOF\<close>.  \<open>External k\<close> stands for an error
  made outside this file (by the command runner, the daemon's callbacks or
  \<open>os.Executable\<close>).  A returned \<open>error\<close> is an \<open>error option\<close>, \<open>None\<close> being \<open>nil\<close>.
\<close>

datatype fault = EACCES | EPERM | EIO | ELOOP | ENOTDIR | ENAMETOOLONG | EROFS | ENOSPC

datatype errno = ENOENT | EISDIR | EINVAL | Other fault

datatype error =
    ErrNoUserServiceRunCom
  | ErrNotInstalled
  | ErrTooLong
  | EOF
  | PathError string string errno
  | Errorf string
  | Wrap string error
  | ExecError string
  | External nat

text \<open>\<open>errors.Is(err, target)\<close> for a non-nil \<open>err\<close>: the chain of wrapped errors holds the target.\<close>

fun errors_Is :: "error \<Rightarrow> error \<Rightarrow> bool" where
  "errors_Is (Wrap msg e) target = (Wrap msg e = target \<or> errors_Is e target)"
| "errors_Is e target = (e = target)"

text \<open>
  \<open>errors.Is(err, os.ErrNotExist)\<close>: true of a path error whose errno is \<open>ENOENT\<close>, also
  when wrapped; false of \<open>nil\<close>.
\<close>

fun not_exist :: "error \<Rightarrow> bool" where
  "not_exist (PathError opn path en) = (en = ENOENT)"
| "not_exist (Wrap msg e) = not_exist e"
| "not_exist e = False"

definition is_ErrNotExist :: "error option \<Rightarrow> bool" where
  "is_ErrNotExist err = (case err of None \<Rightarrow> False | Some e \<Rightarrow> not_exist e)"

text \<open>
  \<open>errors.Annotate(err, "msg: %w")\<close> of golibs: \<open>nil\<close> stays \<open>nil\<close>, any other error is
  wrapped.
\<close>

definition errors_Annotate :: "error option \<Rightarrow> string \<Rightarrow> error option" where
  "errors_Annotate err msg = (case err of None \<Rightarrow> None | Some e \<Rightarrow> Some (Wrap msg e))"

section \<open>The operating system\<close>

text \<open>
  The file system is a flat map from paths to nodes; a regular file has its content and
  its permission bits.  Every call that takes a path can also fail with an injected
  \<open>fault\<close> (a permission error, an I/O error, ...), whatever the node: \<open>injected w opn p\<close>
  is the fault of operation \<open>opn\<close> on path \<open>p\<close>, if any.  \<open>ENOENT\<close> is never injected: it
  is the answer for a path with no node.  Reads, writes and seeks on an open regular
  file are modelled without injected faults.  \<open>executable_path\<close> and \<open>working_dir\<close> are
  what \<open>os.Executable\<close> and \<open>os.Getwd\<close> find: a path, or the number of an error.
  \<open>cmd_log\<close> records the external commands run so far.
\<close>

datatype node = RegFile string nat | Directory

datatype sysop = OpStat | OpOpenFile | OpCreate | OpChmod | OpRemove

record world =
  files :: "string \<rightharpoonup> node"
  injected :: "sysop \<Rightarrow> string \<Rightarrow> fault option"
  executable_path :: "nat + string"
  working_dir :: "nat + string"
  cmd_log :: "(string \<times> string list) list"

definition os_Executable :: "world \<Rightarrow> error + string" where
  "os_Executable w = (case executable_path w of Inl k \<Rightarrow> Inl (External k) | Inr path \<Rightarrow> Inr path)"

definition os_Getwd :: "world \<Rightarrow> error + string" where
  "os_Getwd w = (case working_dir w of Inl k \<Rightarrow> Inl (External k) | Inr path \<Rightarrow> Inr path)"

text \<open>An open file: its name, whether it is a directory, its content and the offset.\<close>

record osfile =
  f_name :: string
  f_isdir :: bool
  f_content :: string
  f_offset :: nat

text \<open>A file just opened: the offset is 0.\<close>

definition opened :: "string \<Rightarrow> string \<Rightarrow> osfile" where
  "opened path c = \<lparr>f_name = path, f_isdir = False, f_content = c, f_offset = 0\<rparr>"

definition os_Stat :: "world \<Rightarrow> string \<Rightarrow> error + node" where
  "os_Stat w path =
     (case injected w OpStat path of
        Some ft \<Rightarrow> Inl (PathError ''stat'' path (Other ft))
      | None \<Rightarrow>
          (case files w path of
             None \<Rightarrow> Inl (PathError ''stat'' path ENOENT)
           | Some nd \<Rightarrow> Inr nd))"

text \<open>\<open>os.OpenFile(path, os.O_RDWR|os.O_CREATE, perm)\<close>: a missing file is created empty.\<close>

definition os_OpenFile :: "world \<Rightarrow> string \<Rightarrow> nat \<Rightarrow> (error + osfile) \<times> world" where
  "os_OpenFile w path perm =
     (case injected w OpOpenFile path of
        Some ft \<Rightarrow> (Inl (PathError ''open'' path (Other ft)), w)
      | None \<Rightarrow>
          (case files w path of
             None \<Rightarrow>
               (Inr (opened path []), w\<lparr>files := (files w)(path \<mapsto> RegFile [] perm)\<rparr>)
           | Some Directory \<Rightarrow> (Inl (PathError ''open'' path EISDIR), w)
           | Some (RegFile c m) \<Rightarrow>
               (Inr (opened path c), w)))"

text \<open>\<open>os.Create(path)\<close> is \<open>OpenFile(path, O_RDWR|O_CREATE|O_TRUNC, 0666)\<close>; octal 666 is 438.\<close>

definition os_Create :: "world \<Rightarrow> string \<Rightarrow> (error + osfile) \<times> world" where
  "os_Create w path =
     (case injected w OpCreate path of
        Some ft \<Rightarrow> (Inl (PathError ''open'' path (Other ft)), w)
      | None \<Rightarrow>
          (case files w path of
             Some Directory \<Rightarrow> (Inl (PathError ''open'' path EISDIR), w)
           | Some (RegFile c m) \<Rightarrow>
               (Inr (opened path []), w\<lparr>files := (files w)(path \<mapsto> RegFile [] m)\<rparr>)
           | None \<Rightarrow>
               (Inr (opened path []), w\<lparr>files := (files w)(path \<mapsto> RegFile [] 438)\<rparr>)))"

definition os_Chmod :: "world \<Rightarrow> string \<Rightarrow> nat \<Rightarrow> error option \<times> world" where
  "os_Chmod w path mode =
     (case injected w OpChmod path of
        Some ft \<Rightarrow> (Some (PathError ''chmod'' path (Other ft)), w)
      | None \<Rightarrow>
          (case files w path of
             None \<Rightarrow> (Some (PathError ''chmod'' path ENOENT), w)
           | Some Directory \<Rightarrow> (None, w)
           | Some (RegFile c m) \<Rightarrow> (None, w\<lparr>files := (files w)(path \<mapsto> RegFile c mode)\<rparr>)))"

definition os_Remove :: "world \<Rightarrow> string \<Rightarrow> error option \<times> world" where
  "os_Remove w path =
     (case injected w OpRemove path of
        Some ft \<Rightarrow> (Some (PathError ''remove'' path (Other ft)), w)
      | None \<Rightarrow>
          (case files w path of
             None \<Rightarrow> (Some (PathError ''remove'' path ENOENT), w)
           | Some nd \<Rightarrow> (None, w\<lparr>files := (files w)(path := None)\<rparr>)))"

text \<open>
  The content written through an open file reaches the file system: the node of the
  file's name takes the content of the handle.
\<close>

definition flush :: "world \<Rightarrow> osfile \<Rightarrow> world" where
  "flush w f =
     (case files w (f_name f) of
        Some (RegFile c m) \<Rightarrow> w\<lparr>files := (files w)(f_name f \<mapsto> RegFile (f_content f) m)\<rparr>
      | _ \<Rightarrow> w)"

text \<open>
  \<open>file.Read(buf)\<close> with \<open>len(buf) = k\<close>: the bytes read (none at the end of the file,
  where Go returns \<open>io.EOF\<close>) and the file with its offset advanced.
\<close>

definition file_Read :: "nat \<Rightarrow> osfile \<Rightarrow> string \<times> osfile" where
  "file_Read k f =
     (let bs = take k (drop (f_offset f) (f_content f))
      in (bs, f\<lparr>f_offset := f_offset f + length bs\<rparr>))"

text \<open>\<open>file.Seek(-1, 1)\<close>: one byte back from the current offset; \<open>EINVAL\<close> at offset 0.\<close>

definition file_Seek_back1 :: "osfile \<Rightarrow> error + osfile" where
  "file_Seek_back1 f =
     (if f_offset f = 0 then Inl (PathError ''seek'' (f_name f) EINVAL)
      else Inr (f\<lparr>f_offset := f_offset f - 1\<rparr>))"

text \<open>
  \<open>file.WriteString(s)\<close>: the bytes replace the content from the offset on and extend the
  file where they reach beyond its end (a gap before the offset is filled with zero
  bytes); the offset moves behind them.
\<close>

definition file_WriteString :: "osfile \<Rightarrow> string \<Rightarrow> osfile" where
  "file_WriteString f s =
     (let c = f_content f; off = f_offset f
      in f\<lparr>f_content := take off c @ replicate (off - length c) (CHR 0x00) @ s
                           @ drop (off + length s) c,
           f_offset := off + length s\<rparr>)"

section \<open>The service descriptor\<close>

text \<open>
  \<open>service.Config\<close> with the fields this file reads.  \<open>Option\<close> is the option bag
  \<open>service.KeyValue\<close>, a map from names to values of any type: a boolean, a string, a
  \<open>func()\<close> or something else.  A \<open>func()\<close> acts on the state \<open>'p\<close> of the running
  program and may never return (\<open>None\<close>).
\<close>

datatype 'p optval = VBool bool | VString string | VFunc "'p \<Rightarrow> 'p option" | VOther

record 'p Config =
  Name :: string
  DisplayName :: string
  Executable :: string
  Arguments :: "string list"
  Option :: "string \<rightharpoonup> 'p optval"

text \<open>
  \<open>service.Interface\<close>: the daemon's start and stop callbacks.  A callback returns an
  error or \<open>nil\<close> and a new program state, or never returns (\<open>None\<close>).
\<close>

record 'p Interface =
  i_Start :: "'p \<Rightarrow> (error option \<times> 'p) option"
  i_Stop :: "'p \<Rightarrow> (error option \<times> 'p) option"

record 'p openbsdRunComService =
  i :: "'p Interface"
  Config :: "'p Config"

definition sysVersion :: string where
  "sysVersion = ''openbsd-runcom''"

text \<open>\<open>stringutil.Coalesce\<close>: the first non-empty string, or the empty string.\<close>

fun stringutil_Coalesce :: "string list \<Rightarrow> string" where
  "stringutil_Coalesce [] = []"
| "stringutil_Coalesce (s # ss) = (if s \<noteq> [] then s else stringutil_Coalesce ss)"

definition String :: "'p openbsdRunComService \<Rightarrow> string" where
  "String s = stringutil_Coalesce [DisplayName (Config s), Name (Config s)]"

definition getBool :: "(string \<rightharpoonup> 'p optval) \<Rightarrow> string \<Rightarrow> bool \<Rightarrow> bool" where
  "getBool kv name defaultValue =
     (case kv name of Some (VBool val) \<Rightarrow> val | _ \<Rightarrow> defaultValue)"

definition getString :: "(string \<rightharpoonup> 'p optval) \<Rightarrow> string \<Rightarrow> string \<Rightarrow> string" where
  "getString kv name defaultValue =
     (case kv name of Some (VString val) \<Rightarrow> val | _ \<Rightarrow> defaultValue)"

definition getFuncSingle ::
  "(string \<rightharpoonup> 'p optval) \<Rightarrow> string \<Rightarrow> ('p \<Rightarrow> 'p option) \<Rightarrow> ('p \<Rightarrow> 'p option)" where
  "getFuncSingle kv name defaultValue =
     (case kv name of Some (VFunc val) \<Rightarrow> val | _ \<Rightarrow> defaultValue)"

definition optionUserService :: string where
  "optionUserService = ''UserService''"

definition optionUserServiceDefault :: bool where
  "optionUserServiceDefault = False"

definition scriptPathPref :: string where
  "scriptPathPref = ''/etc/rc.d''"

definition scriptPath :: "'p openbsdRunComService \<Rightarrow> error + string" where
  "scriptPath s =
     (if getBool (Option (Config s)) optionUserService optionUserServiceDefault
      then Inl ErrNoUserServiceRunCom
      else Inr (filepath_Join [scriptPathPref, Name (Config s)]))"

text \<open>
  \<open>annotate(action, err)\<close> is
  \<open>errors.Annotate(err, "%s %s %s service: %w", action, sysVersion, s.Name)\<close>.
\<close>

definition annotate :: "'p openbsdRunComService \<Rightarrow> string \<Rightarrow> error option \<Rightarrow> error option" where
  "annotate s action err =
     errors_Annotate err (action @ '' '' @ sysVersion @ '' '' @ Name (Config s) @ '' service'')"

definition execPath :: "'p openbsdRunComService \<Rightarrow> world \<Rightarrow> error + string" where
  "execPath s w =
     (if Executable (Config s) \<noteq> [] then filepath_Abs (os_Getwd w) (Executable (Config s))
      else (case os_Executable w of
              Inl e \<Rightarrow> Inl e
            | Inr path \<Rightarrow> filepath_Abs (os_Getwd w) path))"

section \<open>The script template\<close>

definition optionRunComScript :: string where
  "optionRunComScript = ''RunComScript''"

definition runComScript :: string where
  \<open>runComScript =
     ''#!/bin/sh\<newline>'' @
     ''#\<newline>'' @
     ''# $OpenBSD: {{ .SvcInfo }}\<newline>'' @
     ''\<newline>'' @
     ''daemon="{{.Path}}"\<newline>'' @
     ''daemon_flags={{ .Arguments | args }}\<newline>'' @
     ''\<newline>'' @
     ''. /etc/rc.d/rc.subr\<newline>'' @
     ''\<newline>'' @
     ''rc_bg=YES\<newline>'' @
     ''\<newline>'' @
     ''rc_cmd $1\<newline>''\<close>

text \<open>The template function \<open>args\<close> of the source.\<close>

definition args :: "string list \<Rightarrow> string" where
  \<open>args sl = ''"'' @ strings_Join sl '' '' @ ''"''\<close>

text \<open>
  The fragment of \<open>text/template\<close> that is modelled: literal text, the actions
  \<open>{{.Field}}\<close> and \<open>{{.Field | args}}\<close>, with blanks allowed around the parts.  A
  template that \<open>Parse\<close> rejects makes \<open>template.Must\<close> panic; a template outside the
  fragment is treated in the same way.
\<close>

datatype tnode = TText string | TField string | TPipe string string

definition is_tspace :: "char \<Rightarrow> bool" where
  "is_tspace c = (c = CHR '' '' \<or> c = CHR 0x09 \<or> c = CHR 0x0D \<or> c = CHR 0x0A)"

definition is_ident_char :: "char \<Rightarrow> bool" where
  "is_ident_char c =
     (let n = (of_char c :: nat)
      in (48 \<le> n \<and> n \<le> 57) \<or> (65 \<le> n \<and> n \<le> 90) \<or> (97 \<le> n \<and> n \<le> 122) \<or> n = 95)"

definition parse_action :: "string \<Rightarrow> tnode option" where
  "parse_action a =
     (case dropWhile is_tspace a of
        [] \<Rightarrow> None
      | c # r \<Rightarrow>
          if c \<noteq> CHR ''.'' then None
          else
            (let fld = takeWhile is_ident_char r;
                 r1 = dropWhile is_tspace (dropWhile is_ident_char r)
             in if fld = [] then None
                else
                  (case r1 of
                     [] \<Rightarrow> Some (TField fld)
                   | b # r2 \<Rightarrow>
                       if b \<noteq> CHR ''|'' then None
                       else
                         (let r3 = dropWhile is_tspace r2;
                              fn = takeWhile is_ident_char r3;
                              r4 = dropWhile is_tspace (dropWhile is_ident_char r3)
                          in if fn = ''args'' \<and> r4 = [] then Some (TPipe fld fn) else None))))"

lemma strings_Index_nonneg_nonempty: "0 \<le> strings_Index t (c # cs) \<Longrightarrow> t \<noteq> []"
  by (cases t) auto

function template_Parse :: "string \<Rightarrow> tnode list option" where
  "template_Parse t =
     (let i = strings_Index t ''{{''
      in if i < 0 then Some [TText t]
         else
           (let rest = drop (nat i + 2) t; j = strings_Index rest ''}}''
            in if j < 0 then None
               else
                 (case parse_action (take (nat j) rest) of
                    None \<Rightarrow> None
                  | Some nd \<Rightarrow>
                      (case template_Parse (drop (nat j + 2) rest) of
                         None \<Rightarrow> None
                       | Some nds \<Rightarrow> Some (TText (take (nat i) t) # nd # nds)))))"
  by pat_completeness auto
termination
proof (relation "measure length")
  fix t :: string and i rest j nd
  assume i: "i = strings_Index t ''{{''" and "\<not> i < 0"
    and rest: "rest = drop (nat i + 2) t"
  from i \<open>\<not> i < 0\<close> have "t \<noteq> []"
    using strings_Index_nonneg_nonempty [of t] by auto
  then show "(drop (nat j + 2) rest, t) \<in> measure length"
    using rest by (cases t) auto
qed simp

declare template_Parse.simps [simp del]

text \<open>
  The data a template is executed on: the embedded \<open>Config\<close> and the fields \<open>Path\<close> and
  \<open>SvcInfo\<close>.  A field is a string or a list of strings; \<open>lookup_field\<close> is \<open>None\<close> for a
  name that is not a modelled field.
\<close>

datatype tvalue = TString string | TStrings "string list"

record 'p tdata =
  t_Config :: "'p Config"
  t_Path :: string
  t_SvcInfo :: string

definition lookup_field :: "'p tdata \<Rightarrow> string \<Rightarrow> tvalue option" where
  "lookup_field d fld =
     (if fld = ''Path'' then Some (TString (t_Path d))
      else if fld = ''SvcInfo'' then Some (TString (t_SvcInfo d))
      else if fld = ''Name'' then Some (TString (Name (t_Config d)))
      else if fld = ''DisplayName'' then Some (TString (DisplayName (t_Config d)))
      else if fld = ''Executable'' then Some (TString (Executable (t_Config d)))
      else if fld = ''Arguments'' then Some (TStrings (Arguments (t_Config d)))
      else None)"

text \<open>How \<open>text/template\<close> prints a value: a string as it is, a list as \<open>fmt\<close> does.\<close>

fun print_value :: "tvalue \<Rightarrow> string" where
  "print_value (TString v) = v"
| "print_value (TStrings vs) = ''['' @ strings_Join vs '' '' @ '']''"

text \<open>
  \<open>t.Execute(f, data)\<close>: the text written to \<open>f\<close> and the error, if any.  The output is
  written as it is produced, so what precedes a failing action has been written.
\<close>

fun template_Execute :: "tnode list \<Rightarrow> 'p tdata \<Rightarrow> string \<times> error option" where
  "template_Execute [] d = ([], None)"
| "template_Execute (TText t # nds) d =
     (let (out, err) = template_Execute nds d in (t @ out, err))"
| "template_Execute (TField fld # nds) d =
     (case lookup_field d fld of
        None \<Rightarrow> ([], Some (ExecError fld))
      | Some v \<Rightarrow> (let (out, err) = template_Execute nds d in (print_value v @ out, err)))"
| "template_Execute (TPipe fld fn # nds) d =
     (case lookup_field d fld of
        Some (TStrings sl) \<Rightarrow>
          (let (out, err) = template_Execute nds d in (args sl @ out, err))
      | _ \<Rightarrow> ([], Some (ExecError fld)))"

text \<open>\<open>template()\<close>: the parsed template, \<open>None\<close> where \<open>template.Must\<close> panics.\<close>

definition template :: "'p openbsdRunComService \<Rightarrow> tnode list option" where
  "template s = template_Parse (getString (Option (Config s)) optionRunComScript runComScript)"

section \<open>bufio.Scanner\<close>

text \<open>
  The scanner reads the file through a buffer.  \<open>s_buflen\<close> is \<open>len(s.buf)\<close>, \<open>s_start\<close>
  is \<open>s.start\<close>, \<open>s_data\<close> is the unread part \<open>s.buf[s.start:s.end]\<close> of the buffer (so
  \<open>s.end\<close> is \<open>s_start + length s_data\<close>), \<open>s_err\<close> is the sticky error \<open>s.err\<close> and
  \<open>s_tok\<close> the last token.  The file's offset is behind everything that was read into
  the buffer, not behind the last token.
\<close>

record Scanner =
  s_buflen :: nat
  s_start :: nat
  s_data :: string
  s_err :: "error option"
  s_tok :: string

definition startBufSize :: nat where
  "startBufSize = 4096"

definition MaxScanTokenSize :: nat where
  "MaxScanTokenSize = 64 * 1024"

definition bufio_NewScanner :: Scanner where
  "bufio_NewScanner = \<lparr>s_buflen = 0, s_start = 0, s_data = [], s_err = None, s_tok = []\<rparr>"

definition dropCR :: "string \<Rightarrow> string" where
  "dropCR data = (if data \<noteq> [] \<and> last data = CHR 0x0D then butlast data else data)"

text \<open>
  \<open>bufio.ScanLines(data, atEOF)\<close>: how far to advance and the token (\<open>None\<close> is \<open>nil\<close>:
  more data is needed).
\<close>

definition bufio_ScanLines :: "string \<Rightarrow> bool \<Rightarrow> nat \<times> string option" where
  "bufio_ScanLines data atEOF =
     (if atEOF \<and> data = [] then (0, None)
      else if CHR 0x0A \<in> set data then
        (let ln = takeWhile (\<lambda>c. c \<noteq> CHR 0x0A) data in (length ln + 1, Some (dropCR ln)))
      else if atEOF then (length data, Some (dropCR data))
      else (0, None))"

text \<open>
  The parts of one pass of the loop of \<open>Scanner.Scan\<close>.  \<open>scan_split\<close>: when the buffer
  holds data or the error is set, the split function is asked for a token and the buffer
  advances.  \<open>scan_shift\<close>: the data moves to the front of the buffer when the buffer is
  full or more than half of it is consumed.  \<open>scan_grow\<close>: a full buffer doubles, from
  \<open>startBufSize\<close> up to \<open>MaxScanTokenSize\<close>.  \<open>scan_read\<close>: the free part of the buffer
  is filled from the file; at the end of the file the error becomes \<open>io.EOF\<close>.
\<close>

definition scan_split :: "Scanner \<Rightarrow> Scanner \<times> string option" where
  "scan_split s =
     (if s_data s \<noteq> [] \<or> s_err s \<noteq> None then
        (let (adv, tok) = bufio_ScanLines (s_data s) (s_err s \<noteq> None)
         in (s\<lparr>s_start := s_start s + adv, s_data := drop adv (s_data s),
               s_tok := (case tok of None \<Rightarrow> [] | Some t \<Rightarrow> t)\<rparr>, tok))
      else (s, None))"

definition scan_full :: "Scanner \<Rightarrow> bool" where
  "scan_full s = (s_start s + length (s_data s) = s_buflen s)"

definition scan_shift :: "Scanner \<Rightarrow> Scanner" where
  "scan_shift s =
     (if 0 < s_start s \<and> (scan_full s \<or> s_buflen s div 2 < s_start s)
      then s\<lparr>s_start := 0\<rparr> else s)"

definition scan_grow :: "Scanner \<Rightarrow> Scanner" where
  "scan_grow s =
     s\<lparr>s_buflen := min (if s_buflen s * 2 = 0 then startBufSize else s_buflen s * 2)
                       MaxScanTokenSize,
       s_start := 0\<rparr>"

definition scan_read :: "Scanner \<Rightarrow> osfile \<Rightarrow> Scanner \<times> osfile" where
  "scan_read s f =
     (let (bs, f') = file_Read (s_buflen s - (s_start s + length (s_data s))) f
      in if bs = [] then (s\<lparr>s_err := Some EOF\<rparr>, f')
         else (s\<lparr>s_data := s_data s @ bs\<rparr>, f'))"

text \<open>
  One pass of the loop: either \<open>Scan\<close> returns (\<open>Done\<close>), or the buffer was refilled or
  the error set, and the loop goes on (\<open>More\<close>).
\<close>

datatype scan_step = Done bool Scanner osfile | More Scanner osfile

definition scan_pass :: "Scanner \<Rightarrow> osfile \<Rightarrow> scan_step" where
  "scan_pass s f =
     (case scan_split s of
        (s1, Some t) \<Rightarrow> Done True s1 f
      | (s1, None) \<Rightarrow>
          if s_err s1 \<noteq> None then Done False (s1\<lparr>s_start := 0, s_data := []\<rparr>) f
          else
            (let s2 = scan_shift s1
             in if scan_full s2 \<and> MaxScanTokenSize \<le> s_buflen s2
                then Done False (s2\<lparr>s_err := Some ErrTooLong\<rparr>) f
                else
                  (case scan_read (if scan_full s2 then scan_grow s2 else s2) f of
                     (s4, f') \<Rightarrow> More s4 f')))"

definition unread :: "osfile \<Rightarrow> nat" where
  "unread f = length (f_content f) - f_offset f"

lemma scan_split_err: "scan_split s = (s1, tok) \<Longrightarrow> s_err s1 = s_err s"
  by (auto simp: scan_split_def split: if_splits prod.splits)

lemma scan_shift_err: "s_err (scan_shift s) = s_err s"
  by (simp add: scan_shift_def)

lemma scan_grow_err: "s_err (scan_grow s) = s_err s"
  by (simp add: scan_grow_def)

lemma scan_read_measure:
  assumes "scan_read s f = (s', f')" and "s_err s = None"
  shows "2 * unread f' + (if s_err s' = None then 1 else 0) < 2 * unread f + (1::nat)"
proof (cases "take (s_buflen s - (s_start s + length (s_data s)))
                (drop (f_offset f) (f_content f)) = []")
  case True
  with assms show ?thesis
    by (auto simp: scan_read_def file_Read_def unread_def Let_def)
next
  case False
  then have "f_offset f < length (f_content f)"
    by (cases "f_offset f < length (f_content f)") auto
  with False assms show ?thesis
    by (auto simp: scan_read_def file_Read_def unread_def Let_def min_def)
qed

lemma scan_pass_More_measure:
  assumes "scan_pass s f = More s' f'"
  shows "2 * unread f' + (if s_err s' = None then 1 else 0)
         < 2 * unread f + (if s_err s = None then 1 else (0::nat))"
proof -
  obtain s1 tok where sp: "scan_split s = (s1, tok)"
    by (cases "scan_split s")
  from assms sp have tok: "tok = None" and e1: "s_err s1 = None"
    by (auto simp: scan_pass_def split: option.splits if_splits)
  from e1 sp have e: "s_err s = None"
    by (simp add: scan_split_err)
  define s3 where "s3 = (if scan_full (scan_shift s1) then scan_grow (scan_shift s1)
                         else scan_shift s1)"
  have e3: "s_err s3 = None"
    using e1 by (simp add: s3_def scan_grow_err scan_shift_err)
  from assms sp tok e1 have "scan_read s3 f = (s', f')"
    by (auto simp: scan_pass_def Let_def s3_def split: if_splits prod.splits)
  from scan_read_measure [OF this e3] e show ?thesis
    by simp
qed

function bufio_Scan :: "Scanner \<Rightarrow> osfile \<Rightarrow> bool \<times> Scanner \<times> osfile" where
  "bufio_Scan s f =
     (case scan_pass s f of
        Done b s' f' \<Rightarrow> (b, s', f')
      | More s' f' \<Rightarrow> bufio_Scan s' f')"
  by pat_completeness auto
termination
proof (relation "measure (\<lambda>(s, f). 2 * unread f + (if s_err s = None then 1 else 0))")
  fix s f s' f'
  assume "scan_pass s f = More s' f'"
  from scan_pass_More_measure [OF this]
  show "((s', f'), (s, f)) \<in> measure (\<lambda>(s, f). 2 * unread f + (if s_err s = None then 1 else 0))"
    by simp
qed simp

declare bufio_Scan.simps [simp del]

text \<open>\<open>Scanner.Err()\<close>: the first error other than \<open>io.EOF\<close>.\<close>

definition Scanner_Err :: "Scanner \<Rightarrow> error option" where
  "Scanner_Err s = (if s_err s = Some EOF then None else s_err s)"

section \<open>Registration in the startup configuration\<close>

lemma scan_split_None_data: "scan_split s = (s1, None) \<Longrightarrow> s_data s1 = s_data s"
  by (auto simp: scan_split_def bufio_ScanLines_def Let_def split: if_splits)

lemma scan_split_Some_data:
  "scan_split s = (s1, Some t) \<Longrightarrow> length (s_data s1) < length (s_data s)"
  by (auto simp: scan_split_def bufio_ScanLines_def Let_def split: if_splits)

lemma scan_read_total:
  "scan_read s f = (s', f') \<Longrightarrow>
   unread f' + length (s_data s') = unread f + length (s_data s)"
  by (auto simp: scan_read_def file_Read_def unread_def Let_def min_def split: if_splits)

lemma scan_pass_More_total:
  assumes "scan_pass s f = More s' f'"
  shows "unread f' + length (s_data s') = unread f + length (s_data s)"
proof -
  obtain s1 tok where sp: "scan_split s = (s1, tok)"
    by (cases "scan_split s")
  from assms sp have tok: "tok = None"
    by (auto simp: scan_pass_def split: option.splits if_splits)
  define s3 where "s3 = (if scan_full (scan_shift s1) then scan_grow (scan_shift s1)
                         else scan_shift s1)"
  have d3: "s_data s3 = s_data s"
    using scan_split_None_data [of s s1] sp tok
    by (simp add: s3_def scan_grow_def scan_shift_def)
  from assms sp tok have "scan_read s3 f = (s', f')"
    by (auto simp: scan_pass_def Let_def s3_def split: if_splits prod.splits)
  from scan_read_total [OF this] d3 show ?thesis
    by simp
qed

lemma scan_pass_Done_True:
  assumes "scan_pass s f = Done True s' f'"
  shows "f' = f \<and> length (s_data s') < length (s_data s)"
proof -
  obtain s1 tok where sp: "scan_split s = (s1, tok)"
    by (cases "scan_split s")
  from assms sp obtain t where "tok = Some t" and "s' = s1" and "f' = f"
    by (auto simp: scan_pass_def Let_def split: option.splits if_splits prod.splits)
  with sp scan_split_Some_data [of s s1 t] show ?thesis
    by simp
qed

lemma bufio_Scan_True_measure:
  "bufio_Scan s f = (True, s', f') \<Longrightarrow>
   unread f' + length (s_data s') < unread f + length (s_data s)"
proof (induction s f rule: bufio_Scan.induct)
  case (1 s f)
  show ?case
  proof (cases "scan_pass s f")
    case (Done b s1 f1)
    with "1.prems" have "scan_pass s f = Done True s' f'"
      by (simp add: bufio_Scan.simps [of s f])
    from scan_pass_Done_True [OF this] show ?thesis
      by simp
  next
    case (More s1 f1)
    with "1.prems" have "bufio_Scan s1 f1 = (True, s', f')"
      by (simp add: bufio_Scan.simps [of s f])
    from "1.IH" [OF More this] scan_pass_More_total [OF More] show ?thesis
      by simp
  qed
qed

lemma scan_loop_term:
  "(x, y) = bufio_Scan scn fl \<Longrightarrow> x = True \<Longrightarrow> (xa, ya) = y \<Longrightarrow>
   unread ya + length (s_data xa) < unread fl + length (s_data scn)"
  using bufio_Scan_True_measure [of scn fl xa ya] by (cases "bufio_Scan scn fl") auto

definition pref :: string where
  "pref = ''pkg_scripts=''"

text \<open>
  The loop of \<open>modifyRCConfLocal\<close>,
  \<open>for prefIdx = -2; scn.Scan(); { ... }\<close>: the result is the last value of \<open>prefIdx\<close>,
  the last line read (trimmed), the scanner and the file.
\<close>

function scan_loop ::
  "int \<Rightarrow> string \<Rightarrow> Scanner \<Rightarrow> osfile \<Rightarrow> int \<times> string \<times> Scanner \<times> osfile" where
  "scan_loop prefIdx ln scn file =
     (case bufio_Scan scn file of
        (False, scn', file') \<Rightarrow> (prefIdx, ln, scn', file')
      | (True, scn', file') \<Rightarrow>
          (let ln' = strings_TrimSpace (s_tok scn')
           in if ln' = [] then scan_loop prefIdx ln' scn' file'
              else
                (let prefIdx' = strings_Index ln' pref
                 in if prefIdx' = 0 then (prefIdx', ln', scn', file')
                    else scan_loop prefIdx' ln' scn' file')))"
  by pat_completeness auto
termination
  apply (relation "measure (\<lambda>(p, l, s, f). unread f + length (s_data s))")
    apply simp
   apply (frule (2) scan_loop_term, force)
  apply (frule (2) scan_loop_term, force)
  done

declare scan_loop.simps [simp del]

text \<open>\<open>stringutil.InSlice(strs, str)\<close>.\<close>

definition stringutil_InSlice :: "string list \<Rightarrow> string \<Rightarrow> bool" where
  "stringutil_InSlice strs str = (str \<in> set strs)"

definition modifyRCConfLocal :: "'p openbsdRunComService \<Rightarrow> osfile \<Rightarrow> error option \<times> osfile" where
  "modifyRCConfLocal s file =
     (case scan_loop (- 2) [] bufio_NewScanner file of
        (prefIdx, ln, scn, file1) \<Rightarrow>
          (case Scanner_Err scn of
             Some err \<Rightarrow> (Some err, file1)
           | None \<Rightarrow>
               if prefIdx = - 2 then
                 (None, file_WriteString file1 (pref @ Name (Config s) @ ''\<newline>''))
               else if prefIdx = 0 then
                 (let svcs = strings_Split (drop (length pref) ln) (CHR '' '')
                  in if stringutil_InSlice svcs (Name (Config s)) then (None, file1)
                     else
                       (let b = (if svcs \<noteq> [] \<and> hd svcs \<noteq> [] then '' '' else [])
                        in case file_Seek_back1 file1 of
                             Inl err \<Rightarrow> (Some err, file1)
                           | Inr file2 \<Rightarrow>
                               (None, file_WriteString file2
                                        (b @ Name (Config s) @ ''\<newline>''))))
               else
                 (None, file_WriteString file1
                          (''\<newline>'' @ pref @ Name (Config s) @ ''\<newline>''))))"

definition filename :: string where
  "filename = ''/etc/rc.conf.local''"

text \<open>
  \<open>configureSysStartup\<close>: the file is opened or created with permission bits 0644
  (decimal 420); \<open>info.Name()\<close> is the base name of the file.  Closing the file makes its
  content the content of the node.
\<close>

definition configureSysStartup :: "'p openbsdRunComService \<Rightarrow> world \<Rightarrow> error option \<times> world" where
  "configureSysStartup s w =
     (case os_OpenFile w filename 420 of
        (Inl err, w1) \<Rightarrow> (Some err, w1)
      | (Inr file, w1) \<Rightarrow>
          if f_isdir file then
            (Some (Errorf (''expected rc.conf.local to be a file but it's a directory'')), w1)
          else
            (case modifyRCConfLocal s file of
               (err, file') \<Rightarrow> (err, flush w1 file')))"

section \<open>The service operations\<close>

text \<open>
  A call returns, or panics: \<open>template.Must\<close> panics in \<open>writeScript\<close> when the template
  does not parse.
\<close>

datatype 'a outcome = Return 'a | Panic

text \<open>
  \<open>writeScript\<close>.  The script is created, the template is executed into it, and its
  permission bits are set to 0755 (decimal 493).
\<close>

definition writeScript :: "'p openbsdRunComService \<Rightarrow> world \<Rightarrow> error option outcome \<times> world" where
  "writeScript s w =
     (case scriptPath s of
        Inl err \<Rightarrow> (Return (Some err), w)
      | Inr path \<Rightarrow>
          if \<not> is_ErrNotExist (case os_Stat w path of Inl err \<Rightarrow> Some err | Inr info \<Rightarrow> None)
          then (Return (Some (Errorf (''script already exists at '' @ path))), w)
          else
            (case execPath s w of
               Inl err \<Rightarrow> (Return (Some err), w)
             | Inr ep \<Rightarrow>
                 (case template s of
                    None \<Rightarrow> (Panic, w)
                  | Some t \<Rightarrow>
                      (case os_Create w path of
                         (Inl err, w1) \<Rightarrow>
                           (Return (Some (Wrap ''creating rc.d script file'' err)), w1)
                       | (Inr f, w1) \<Rightarrow>
                           (case template_Execute t
                                   \<lparr>t_Config = Config s, t_Path = ep,
                                    t_SvcInfo = getString (Option (Config s)) ''SvcInfo''
                                                  (String s)\<rparr> of
                              (out, execerr) \<Rightarrow>
                                (let w2 = flush w1 (file_WriteString f out)
                                 in case execerr of
                                      Some err \<Rightarrow> (Return (Some err), w2)
                                    | None \<Rightarrow>
                                        (case os_Chmod w2 path 493 of
                                           (cerr, w3) \<Rightarrow>
                                             (Return (errors_Annotate cerr
                                                ''changing rc.d script file permissions''),
                                              w3))))))))"

definition Install :: "'p openbsdRunComService \<Rightarrow> world \<Rightarrow> error option outcome \<times> world" where
  "Install s w =
     (case writeScript s w of
        (Panic, w1) \<Rightarrow> (Panic, w1)
      | (Return (Some err), w1) \<Rightarrow> (Return (annotate s ''installing'' (Some err)), w1)
      | (Return None, w1) \<Rightarrow>
          (case configureSysStartup s w1 of
             (err, w2) \<Rightarrow> (Return (annotate s ''installing'' err), w2)))"

definition Uninstall :: "'p openbsdRunComService \<Rightarrow> world \<Rightarrow> error option \<times> world" where
  "Uninstall s w =
     (case scriptPath s of
        Inl err \<Rightarrow> (annotate s ''uninstalling'' (Some err), w)
      | Inr path \<Rightarrow>
          (case os_Remove w path of
             (rerr, w1) \<Rightarrow>
               (annotate s ''uninstalling'' (errors_Annotate rerr ''removing rc.d script''),
                w1)))"

text \<open>
  \<open>aghos.RunCommand(command, arguments...)\<close> is not part of this file: it is a
  parameter \<open>rc\<close>, which gives the exit code, the output and the error of running the
  command in a world.  \<open>runCom\<close> records the call in \<open>cmd_log\<close>.
\<close>

type_synonym RunCommand = "world \<Rightarrow> string \<Rightarrow> string list \<Rightarrow> int \<times> string \<times> error option"

definition runCom ::
  "RunCommand \<Rightarrow> 'p openbsdRunComService \<Rightarrow> string \<Rightarrow> world \<Rightarrow> (string \<times> error option) \<times> world" where
  "runCom rc s cmd w =
     (case scriptPath s of
        Inl err \<Rightarrow> (([], Some err), w)
      | Inr path \<Rightarrow>
          (case rc w path [cmd] of
             (code, out, err) \<Rightarrow> ((out, err), w\<lparr>cmd_log := cmd_log w @ [(path, [cmd])]\<rparr>)))"

datatype Status = StatusUnknown | StatusRunning | StatusStopped

definition Status ::
  "RunCommand \<Rightarrow> 'p openbsdRunComService \<Rightarrow> world \<Rightarrow> (Status \<times> error option) \<times> world" where
  "Status rc s w =
     (case runCom rc s ''check'' w of
        ((out, Some err), w1) \<Rightarrow>
          ((StatusUnknown, annotate s ''getting status of'' (Some err)), w1)
      | ((out, None), w1) \<Rightarrow>
          if out = Name (Config s) @ ''(ok)\<newline>'' then
            ((StatusRunning, annotate s ''getting status of'' None), w1)
          else if out = Name (Config s) @ ''(failed)\<newline>'' then
            ((StatusStopped, annotate s ''getting status of'' None), w1)
          else
            ((StatusUnknown, annotate s ''getting status of'' (Some ErrNotInstalled)), w1))"

definition Start :: "RunCommand \<Rightarrow> 'p openbsdRunComService \<Rightarrow> world \<Rightarrow> error option \<times> world" where
  "Start rc s w =
     (case runCom rc s ''start'' w of
        ((out, err), w1) \<Rightarrow> (annotate s ''starting'' err, w1))"

definition Stop :: "RunCommand \<Rightarrow> 'p openbsdRunComService \<Rightarrow> world \<Rightarrow> error option \<times> world" where
  "Stop rc s w =
     (case runCom rc s ''stop'' w of
        ((out, err), w1) \<Rightarrow> (annotate s ''stopping'' err, w1))"

definition Restart :: "RunCommand \<Rightarrow> 'p openbsdRunComService \<Rightarrow> world \<Rightarrow> error option \<times> world" where
  "Restart rc s w =
     (case Stop rc s w of
        (Some err, w1) \<Rightarrow> (Some err, w1)
      | (None, w1) \<Rightarrow> Start rc s w1)"

definition optionRunWait :: string where
  "optionRunWait = ''RunWait''"

text \<open>
  \<open>Run\<close>, inside the daemon process.  \<open>runWait\<close>, the default wait function, blocks until
  a termination signal arrives: it is a parameter, like every \<open>func()\<close> a function on
  the program state that may never return.  \<open>Run\<close> returns \<open>None\<close> when it never returns.
\<close>

definition Run ::
  "('p \<Rightarrow> 'p option) \<Rightarrow> 'p openbsdRunComService \<Rightarrow> 'p \<Rightarrow> (error option \<times> 'p) option" where
  "Run runWait s p =
     (case i_Start (i s) p of
        None \<Rightarrow> None
      | Some (Some err, p1) \<Rightarrow> Some (Some err, p1)
      | Some (None, p1) \<Rightarrow>
          (case getFuncSingle (Option (Config s)) optionRunWait runWait p1 of
             None \<Rightarrow> None
           | Some p2 \<Rightarrow> i_Stop (i s) p2))"

section \<open>Observing calls and shell words\<close>

text \<open>
  To observe which callbacks \<open>Run\<close> calls and in which order, a callback can be made to
  append an event to a trace that is part of the program state.
\<close>

datatype event = EvStart | EvWait | EvStop

definition traced_callback ::
  "event \<Rightarrow> ('q \<Rightarrow> (error option \<times> 'q) option) \<Rightarrow>
   'q \<times> event list \<Rightarrow> (error option \<times> 'q \<times> event list) option" where
  "traced_callback ev cb =
     (\<lambda>(q, tr). case cb q of None \<Rightarrow> None | Some (r, q') \<Rightarrow> Some (r, q', tr @ [ev]))"

definition traced_wait ::
  "('q \<Rightarrow> 'q option) \<Rightarrow> 'q \<times> event list \<Rightarrow> ('q \<times> event list) option" where
  "traced_wait wt = (\<lambda>(q, tr). case wt q of None \<Rightarrow> None | Some q' \<Rightarrow> Some (q', tr @ [EvWait]))"

text \<open>
  What the specification calls one opaque quoted token, for the shell that runs the
  script (\<open>/bin/sh\<close>; POSIX Shell Command Language, 2.2 Quoting).  Between single quotes
  every character stands for itself and the next single quote ends the quoting.  Between
  double quotes the backquote starts a command substitution, the dollar sign starts an
  expansion when a name, a digit, a special parameter, a brace or a parenthesis follows
  it, and the backslash escapes the next character when that is a dollar sign, a
  backquote, a double quote, a backslash or a newline (a backslash before a newline
  disappears with it); before any other character the backslash stands for itself.

  \<open>dq_value r\<close> reads the text \<open>r\<close> behind an opening double quote: \<open>Some v\<close> when the
  closing quote is the last character of \<open>r\<close> and nothing is expanded or substituted,
  \<open>v\<close> being the value of the word; \<open>None\<close> when the quoting ends early or never, when
  an expansion or a substitution starts, or at a NUL byte.  \<open>sq_value\<close> does the same
  behind a single quote, and \<open>quoted_word\<close> is the value of a text that is one quoted
  word.  \<open>dq_plain t\<close> says that \<open>t\<close> holds nothing that is special between double
  quotes.
\<close>

definition dq_escapable :: "char \<Rightarrow> bool" where
  "dq_escapable c =
     (c = CHR ''$'' \<or> c = CHR 0x60 \<or> c = CHR 0x22 \<or> c = CHR 0x5C \<or> c = CHR 0x0A)"

definition expansion_start :: "char \<Rightarrow> bool" where
  "expansion_start c =
     ((0x41 \<le> (of_char c :: nat) \<and> (of_char c :: nat) \<le> 0x5A) \<or>
      (0x61 \<le> (of_char c :: nat) \<and> (of_char c :: nat) \<le> 0x7A) \<or>
      (0x30 \<le> (of_char c :: nat) \<and> (of_char c :: nat) \<le> 0x39) \<or>
      c \<in> set ''_{(@*#?-$!'')"

fun dq_value :: "string \<Rightarrow> string option" where
  "dq_value [] = None"
| "dq_value [c] = (if c = CHR 0x22 then Some [] else None)"
| "dq_value (c # d # r) =
     (if c = CHR 0x22 \<or> c = CHR 0x60 \<or> c = CHR 0x00 then None
      else if c = CHR 0x5C then
        (if d = CHR 0x0A then dq_value r
         else if dq_escapable d then map_option (Cons d) (dq_value r)
         else map_option (Cons c) (dq_value (d # r)))
      else if c = CHR ''$'' \<and> expansion_start d then None
      else map_option (Cons c) (dq_value (d # r)))"

fun sq_value :: "string \<Rightarrow> string option" where
  "sq_value [] = None"
| "sq_value [c] = (if c = CHR 0x27 then Some [] else None)"
| "sq_value (c # d # r) =
     (if c = CHR 0x27 \<or> c = CHR 0x00 then None
      else map_option (Cons c) (sq_value (d # r)))"

definition quoted_word :: "string \<Rightarrow> string option" where
  "quoted_word v =
     (case v of
        [] \<Rightarrow> None
      | q # r \<Rightarrow>
          if q = CHR 0x22 then dq_value r
          else if q = CHR 0x27 then sq_value r
          else None)"

fun dq_plain :: "string \<Rightarrow> bool" where
  "dq_plain [] = True"
| "dq_plain [c] = (c \<noteq> CHR 0x22 \<and> c \<noteq> CHR 0x60 \<and> c \<noteq> CHR 0x00 \<and> c \<noteq> CHR 0x5C)"
| "dq_plain (c # d # r) =
     (c \<noteq> CHR 0x22 \<and> c \<noteq> CHR 0x60 \<and> c \<noteq> CHR 0x00 \<and>
      (c = CHR 0x5C \<longrightarrow> \<not> dq_escapable d) \<and>
      (c = CHR ''$'' \<longrightarrow> \<not> expansion_start d) \<and>
      dq_plain (d # r))"

section \<open>Example inputs\<close>

definition example_service :: "(string \<rightharpoonup> 'p optval) \<Rightarrow> 'p openbsdRunComService" where
  "example_service opts =
     \<lparr>i = \<lparr>i_Start = (\<lambda>p. Some (None, p)), i_Stop = (\<lambda>p. Some (None, p))\<rparr>,
      Config = \<lparr>Name = ''AdGuardHome'', DisplayName = [],
                Executable = ''/usr/local/bin/AdGuardHome'',
                Arguments = [''-s'', ''run''], Option = opts\<rparr>\<rparr>"

definition example_world :: "(string \<rightharpoonup> node) \<Rightarrow> (sysop \<Rightarrow> string \<Rightarrow> fault option) \<Rightarrow> world" where
  "example_world fs flt =
     \<lparr>files = fs, injected = flt,
      executable_path = Inr ''/usr/local/bin/AdGuardHome'',
      working_dir = Inr ''/root'', cmd_log = []\<rparr>"

definition no_faults :: "sysop \<Rightarrow> string \<Rightarrow> fault option" where
  "no_faults opn path = None"

definition example_RunCommand :: "string \<Rightarrow> error option \<Rightarrow> RunCommand" where
  "example_RunCommand out err = (\<lambda>w path arguments. (0, out, err))"

section \<open>Properties: paths, status, restart, run\<close>

lemma annotate_Some:
  "annotate s action (Some e) =
     Some (Wrap (action @ '' openbsd-runcom '' @ Name (Config s) @ '' service'') e)"
  by (simp add: annotate_def errors_Annotate_def sysVersion_def)

lemma annotate_None: "annotate s action None = None"
  by (simp add: annotate_def errors_Annotate_def)

lemma scriptPath_user:
  "Option (Config s) optionUserService = Some (VBool True) \<Longrightarrow>
   scriptPath s = Inl ErrNoUserServiceRunCom"
  by (simp add: scriptPath_def getBool_def)

lemma scriptPath_system:
  "Option (Config s) optionUserService \<noteq> Some (VBool True) \<Longrightarrow>
   scriptPath s = Inr (filepath_Join [''/etc/rc.d'', Name (Config s)])"
  by (auto simp: scriptPath_def getBool_def optionUserServiceDefault_def scriptPathPref_def
           split: option.splits optval.splits)

lemma strings_Split_no_sep: "sep \<notin> set t \<Longrightarrow> strings_Split t sep = [t]"
  by (induction t) auto

lemma filepath_Join_element:
  assumes "name \<noteq> []" and "CHR ''/'' \<notin> set name" and "name \<noteq> ''.''" and "name \<noteq> ''..''"
  shows "filepath_Join [''/etc/rc.d'', name] = ''/etc/rc.d/'' @ name"
proof -
  have "strings_Split (''/etc/rc.d/'' @ name) (CHR ''/'') = [[], ''etc'', ''rc.d'', name]"
    using assms(2) by (simp add: strings_Split_no_sep)
  with assms show ?thesis
    by (simp add: filepath_Join_def filepath_Clean_def)
qed

lemma example_scriptPath:
  "scriptPath (example_service Map.empty) = Inr ''/etc/rc.d/AdGuardHome''"
  using scriptPath_system [of "example_service Map.empty"]
        filepath_Join_element [of "''AdGuardHome''"]
  by (simp add: example_service_def)

text \<open>
  Claim C9.  When the option bag maps \<open>UserService\<close> to the boolean true, \<open>scriptPath\<close>
  fails with the error \<open>errNoUserServiceRunCom\<close>, and so do \<open>Install\<close>, \<open>Uninstall\<close>,
  \<open>Start\<close>, \<open>Stop\<close> and \<open>Status\<close>, each with that error under its annotation and with
  nothing changed.  In every other case (the option absent, false or not a boolean)
  \<open>scriptPath\<close> succeeds with \<open>filepath.Join("/etc/rc.d", name)\<close>, which is
  \<open>/etc/rc.d/name\<close> when the name is a single path element.
\<close>

theorem scriptPath_UserService:
  "(Option (Config s) optionUserService = Some (VBool True) \<longrightarrow>
      scriptPath s = Inl ErrNoUserServiceRunCom \<and>
      Install s w =
        (Return (Some (Wrap (''installing openbsd-runcom '' @ Name (Config s) @ '' service'')
                         ErrNoUserServiceRunCom)), w) \<and>
      Uninstall s w =
        (Some (Wrap (''uninstalling openbsd-runcom '' @ Name (Config s) @ '' service'')
                 ErrNoUserServiceRunCom), w) \<and>
      Start rc s w =
        (Some (Wrap (''starting openbsd-runcom '' @ Name (Config s) @ '' service'')
                 ErrNoUserServiceRunCom), w) \<and>
      Stop rc s w =
        (Some (Wrap (''stopping openbsd-runcom '' @ Name (Config s) @ '' service'')
                 ErrNoUserServiceRunCom), w) \<and>
      Status rc s w =
        ((StatusUnknown,
          Some (Wrap (''getting status of openbsd-runcom '' @ Name (Config s) @ '' service'')
                  ErrNoUserServiceRunCom)), w)) \<and>
   (Option (Config s) optionUserService \<noteq> Some (VBool True) \<longrightarrow>
      scriptPath s = Inr (filepath_Join [''/etc/rc.d'', Name (Config s)]) \<and>
      (Name (Config s) \<noteq> [] \<and> CHR ''/'' \<notin> set (Name (Config s)) \<and>
       Name (Config s) \<noteq> ''.'' \<and> Name (Config s) \<noteq> ''..'' \<longrightarrow>
         scriptPath s = Inr (''/etc/rc.d/'' @ Name (Config s))))"
proof (intro conjI impI)
  assume u: "Option (Config s) optionUserService = Some (VBool True)"
  then show sp: "scriptPath s = Inl ErrNoUserServiceRunCom"
    by (rule scriptPath_user)
  show "Install s w =
        (Return (Some (Wrap (''installing openbsd-runcom '' @ Name (Config s) @ '' service'')
                         ErrNoUserServiceRunCom)), w)"
    by (simp add: Install_def writeScript_def sp annotate_Some)
  show "Uninstall s w =
        (Some (Wrap (''uninstalling openbsd-runcom '' @ Name (Config s) @ '' service'')
                 ErrNoUserServiceRunCom), w)"
    by (simp add: Uninstall_def sp annotate_Some)
  show "Start rc s w =
        (Some (Wrap (''starting openbsd-runcom '' @ Name (Config s) @ '' service'')
                 ErrNoUserServiceRunCom), w)"
    by (simp add: Start_def runCom_def sp annotate_Some)
  show "Stop rc s w =
        (Some (Wrap (''stopping openbsd-runcom '' @ Name (Config s) @ '' service'')
                 ErrNoUserServiceRunCom), w)"
    by (simp add: Stop_def runCom_def sp annotate_Some)
  show "Status rc s w =
        ((StatusUnknown,
          Some (Wrap (''getting status of openbsd-runcom '' @ Name (Config s) @ '' service'')
                  ErrNoUserServiceRunCom)), w)"
    by (simp add: Status_def runCom_def sp annotate_Some)
next
  assume n: "Option (Config s) optionUserService \<noteq> Some (VBool True)"
  then show j: "scriptPath s = Inr (filepath_Join [''/etc/rc.d'', Name (Config s)])"
    by (rule scriptPath_system)
  assume "Name (Config s) \<noteq> [] \<and> CHR ''/'' \<notin> set (Name (Config s)) \<and>
          Name (Config s) \<noteq> ''.'' \<and> Name (Config s) \<noteq> ''..''"
  then show "scriptPath s = Inr (''/etc/rc.d/'' @ Name (Config s))"
    using j by (simp add: filepath_Join_element)
qed

theorem scriptPath_UserService_witness:
  "scriptPath (example_service [optionUserService \<mapsto> VBool True] :: unit openbsdRunComService)
     = Inl ErrNoUserServiceRunCom \<and>
   Install (example_service [optionUserService \<mapsto> VBool True] :: unit openbsdRunComService)
       (example_world Map.empty no_faults)
     = (Return (Some (Wrap ''installing openbsd-runcom AdGuardHome service''
                        ErrNoUserServiceRunCom)), example_world Map.empty no_faults) \<and>
   scriptPath (example_service [optionUserService \<mapsto> VBool False] :: unit openbsdRunComService)
     = Inr ''/etc/rc.d/AdGuardHome'' \<and>
   scriptPath (example_service [optionUserService \<mapsto> VString ''yes''] :: unit openbsdRunComService)
     = Inr ''/etc/rc.d/AdGuardHome'' \<and>
   scriptPath (example_service Map.empty :: unit openbsdRunComService)
     = Inr ''/etc/rc.d/AdGuardHome''"
proof -
  let ?u = "example_service [optionUserService \<mapsto> VBool True] :: unit openbsdRunComService"
  let ?f = "example_service [optionUserService \<mapsto> VBool False] :: unit openbsdRunComService"
  let ?y = "example_service [optionUserService \<mapsto> VString ''yes''] :: unit openbsdRunComService"
  let ?n = "example_service Map.empty :: unit openbsdRunComService"
  let ?w = "example_world Map.empty no_faults"
  have u: "Option (Config ?u) optionUserService = Some (VBool True)"
    and f: "Option (Config ?f) optionUserService \<noteq> Some (VBool True)"
    and y: "Option (Config ?y) optionUserService \<noteq> Some (VBool True)"
    and n: "Option (Config ?n) optionUserService \<noteq> Some (VBool True)"
    by (simp_all add: example_service_def)
  have names: "Name (Config ?u) = ''AdGuardHome''" "Name (Config ?f) = ''AdGuardHome''"
    "Name (Config ?y) = ''AdGuardHome''" "Name (Config ?n) = ''AdGuardHome''"
    by (simp_all add: example_service_def)
  from scriptPath_UserService [where s = ?u and w = ?w] u
  have 1: "scriptPath ?u = Inl ErrNoUserServiceRunCom"
    and 2: "Install ?u ?w =
             (Return (Some (Wrap ''installing openbsd-runcom AdGuardHome service''
                              ErrNoUserServiceRunCom)), ?w)"
    by (simp_all add: names)
  from scriptPath_UserService [where s = ?f] f
  have 3: "scriptPath ?f = Inr ''/etc/rc.d/AdGuardHome''"
    by (simp add: names filepath_Join_def filepath_Clean_def)
  from scriptPath_UserService [where s = ?y] y
  have 4: "scriptPath ?y = Inr ''/etc/rc.d/AdGuardHome''"
    by (simp add: names filepath_Join_def filepath_Clean_def)
  from scriptPath_UserService [where s = ?n] n
  have 5: "scriptPath ?n = Inr ''/etc/rc.d/AdGuardHome''"
    by (simp add: names filepath_Join_def filepath_Clean_def)
  from 1 2 3 4 5 show ?thesis
    by simp
qed

text \<open>
  Claim C4.  When the script path is available and the script was run with the argument
  \<open>check\<close>: the output \<open>name(ok)\<close> with a newline gives \<open>(StatusRunning, nil)\<close>, the
  output \<open>name(failed)\<close> with a newline gives \<open>(StatusStopped, nil)\<close>, every other output
  (the empty one too) gives \<open>StatusUnknown\<close> with \<open>service.ErrNotInstalled\<close>, and an error
  of the invocation gives \<open>StatusUnknown\<close> with that error; the error is returned under
  the annotation of \<open>Status\<close>, which wraps it.
\<close>

theorem Status_translation:
  assumes "scriptPath s = Inr path" and "rc w path [''check''] = (code, out, err)"
  shows "Status rc s w =
     ((case err of
         Some e \<Rightarrow>
           (StatusUnknown,
            Some (Wrap (''getting status of openbsd-runcom '' @ Name (Config s) @ '' service'') e))
       | None \<Rightarrow>
           if out = Name (Config s) @ ''(ok)\<newline>'' then (StatusRunning, None)
           else if out = Name (Config s) @ ''(failed)\<newline>'' then (StatusStopped, None)
           else
             (StatusUnknown,
              Some (Wrap (''getting status of openbsd-runcom '' @ Name (Config s) @ '' service'')
                      ErrNotInstalled))),
      w\<lparr>cmd_log := cmd_log w @ [(path, [''check''])]\<rparr>)"
  using assms
  by (cases err) (simp_all add: Status_def runCom_def annotate_Some annotate_None)

theorem Status_translation_witness:
  "fst (Status (example_RunCommand ''AdGuardHome(ok)\<newline>'' None)
          (example_service Map.empty :: unit openbsdRunComService)
          (example_world Map.empty no_faults)) = (StatusRunning, None) \<and>
   fst (Status (example_RunCommand ''AdGuardHome(failed)\<newline>'' None)
          (example_service Map.empty :: unit openbsdRunComService)
          (example_world Map.empty no_faults)) = (StatusStopped, None) \<and>
   fst (Status (example_RunCommand [] None)
          (example_service Map.empty :: unit openbsdRunComService)
          (example_world Map.empty no_faults))
     = (StatusUnknown,
        Some (Wrap ''getting status of openbsd-runcom AdGuardHome service'' ErrNotInstalled)) \<and>
   fst (Status (example_RunCommand [] (Some (External 1)))
          (example_service Map.empty :: unit openbsdRunComService)
          (example_world Map.empty no_faults))
     = (StatusUnknown,
        Some (Wrap ''getting status of openbsd-runcom AdGuardHome service'' (External 1)))"
proof -
  let ?s = "example_service Map.empty :: unit openbsdRunComService"
  let ?w = "example_world Map.empty no_faults"
  have sp: "scriptPath ?s = Inr ''/etc/rc.d/AdGuardHome''"
    by (rule example_scriptPath)
  have n: "Name (Config ?s) = ''AdGuardHome''"
    by (simp add: example_service_def)
  from Status_translation [OF sp,
          of "example_RunCommand ''AdGuardHome(ok)\<newline>'' None" ?w 0
             "''AdGuardHome(ok)\<newline>''" None]
       Status_translation [OF sp,
          of "example_RunCommand ''AdGuardHome(failed)\<newline>'' None" ?w 0
             "''AdGuardHome(failed)\<newline>''" None]
       Status_translation [OF sp, of "example_RunCommand [] None" ?w 0 "[]" None]
       Status_translation [OF sp,
          of "example_RunCommand [] (Some (External 1))" ?w 0 "[]" "Some (External 1)"]
  show ?thesis
    by (simp add: example_RunCommand_def n)
qed

text \<open>
  Claim C5.  If \<open>Stop\<close> fails, \<open>Restart\<close> returns the error of \<open>Stop\<close> as it is and the
  world as \<open>Stop\<close> left it: the command log has grown by the \<open>stop\<close> command at most, so
  \<open>Start\<close> was not invoked.  If \<open>Stop\<close> succeeds, \<open>Restart\<close> is \<open>Start\<close> in the world
  that \<open>Stop\<close> left, and the log has grown by \<open>stop\<close> and then \<open>start\<close>.
\<close>

theorem Restart_short_circuit:
  "(Stop rc s w = (Some e, w1) \<longrightarrow>
      Restart rc s w = (Some e, w1) \<and>
      cmd_log w1 =
        cmd_log w @ (case scriptPath s of Inl err \<Rightarrow> [] | Inr path \<Rightarrow> [(path, [''stop''])])) \<and>
   (Stop rc s w = (None, w1) \<longrightarrow>
      Restart rc s w = Start rc s w1 \<and>
      (\<exists>path. scriptPath s = Inr path \<and>
         cmd_log (snd (Restart rc s w)) =
           cmd_log w @ [(path, [''stop'']), (path, [''start''])]))"
  by (auto simp: Restart_def Stop_def Start_def runCom_def annotate_def errors_Annotate_def
           split: sum.splits prod.splits option.splits)

theorem Restart_short_circuit_witness:
  "Restart (example_RunCommand [] (Some (External 1)))
      (example_service Map.empty :: unit openbsdRunComService)
      (example_world Map.empty no_faults)
     = (Some (Wrap ''stopping openbsd-runcom AdGuardHome service'' (External 1)),
        (example_world Map.empty no_faults)
          \<lparr>cmd_log := [(''/etc/rc.d/AdGuardHome'', [''stop''])]\<rparr>) \<and>
   cmd_log (snd (Restart (example_RunCommand [] None)
      (example_service Map.empty :: unit openbsdRunComService)
      (example_world Map.empty no_faults)))
     = [(''/etc/rc.d/AdGuardHome'', [''stop'']), (''/etc/rc.d/AdGuardHome'', [''start''])]"
proof -
  let ?s = "example_service Map.empty :: unit openbsdRunComService"
  let ?w = "example_world Map.empty no_faults"
  let ?w1 = "?w\<lparr>cmd_log := [(''/etc/rc.d/AdGuardHome'', [''stop''])]\<rparr>"
  have n: "Name (Config ?s) = ''AdGuardHome''"
    by (simp add: example_service_def)
  have 1: "Stop (example_RunCommand [] (Some (External 1))) ?s ?w
             = (Some (Wrap ''stopping openbsd-runcom AdGuardHome service'' (External 1)), ?w1)"
    by (simp add: Stop_def runCom_def example_scriptPath example_RunCommand_def
                  annotate_Some n example_world_def)
  have 2: "Stop (example_RunCommand [] None) ?s ?w = (None, ?w1)"
    by (simp add: Stop_def runCom_def example_scriptPath example_RunCommand_def
                  annotate_None example_world_def)
  from Restart_short_circuit
         [of "example_RunCommand [] (Some (External 1))" ?s ?w
             "Wrap ''stopping openbsd-runcom AdGuardHome service'' (External 1)" ?w1] 1
  have 3: "Restart (example_RunCommand [] (Some (External 1))) ?s ?w
             = (Some (Wrap ''stopping openbsd-runcom AdGuardHome service'' (External 1)), ?w1)"
    by simp
  from Restart_short_circuit [of "example_RunCommand [] None" ?s ?w _ ?w1] 2
  have 4: "cmd_log (snd (Restart (example_RunCommand [] None) ?s ?w))
             = [(''/etc/rc.d/AdGuardHome'', [''stop'']), (''/etc/rc.d/AdGuardHome'', [''start''])]"
    by (auto simp: example_scriptPath example_world_def)
  from 3 4 show ?thesis
    by simp
qed

text \<open>
  Claim C6.  If the start callback fails, \<open>Run\<close> returns its error and the state the
  callback left: neither the wait function nor the stop callback has run.  If the start
  callback succeeds, \<open>Run\<close> runs the wait function (the one given by the \<open>RunWait\<close>
  option, or the default), does not return when the wait function does not return, and
  otherwise returns what the stop callback returns in the state the wait function left.
  With callbacks that record an event each, a run that returns has recorded either the
  start alone, with its error, or the start, the wait and one stop, in this order.
\<close>

theorem Run_order:
  "(i_Start (i s) p = Some (Some e, p1) \<longrightarrow> Run runWait s p = Some (Some e, p1)) \<and>
   (i_Start (i s) p = Some (None, p1) \<longrightarrow>
      Run runWait s p =
        (case getFuncSingle (Option (Config s)) optionRunWait runWait p1 of
           None \<Rightarrow> None
         | Some p2 \<Rightarrow> i_Stop (i s) p2)) \<and>
   (i ts = \<lparr>i_Start = traced_callback EvStart st, i_Stop = traced_callback EvStop sp\<rparr> \<and>
    Option (Config ts) optionRunWait = Some (VFunc (traced_wait wt)) \<and>
    Run rw ts (q, tr0) = Some (r, q', tr) \<longrightarrow>
      (\<exists>e. st q = Some (Some e, q') \<and> r = Some e \<and> tr = tr0 @ [EvStart]) \<or>
      (\<exists>q1 q2. st q = Some (None, q1) \<and> wt q1 = Some q2 \<and> sp q2 = Some (r, q') \<and>
         tr = tr0 @ [EvStart, EvWait, EvStop]))"
  by (auto simp: Run_def getFuncSingle_def traced_callback_def traced_wait_def
           split: option.splits prod.splits)

definition example_traced_service ::
  "(nat \<Rightarrow> (error option \<times> nat) option) \<Rightarrow> (nat \<times> event list) openbsdRunComService" where
  "example_traced_service st =
     \<lparr>i = \<lparr>i_Start = traced_callback EvStart st,
            i_Stop = traced_callback EvStop (\<lambda>q. Some (None, q + 1))\<rparr>,
      Config = \<lparr>Name = ''AdGuardHome'', DisplayName = [], Executable = [], Arguments = [],
                Option = [optionRunWait \<mapsto> VFunc (traced_wait (\<lambda>q. Some (q + 10)))]\<rparr>\<rparr>"

theorem Run_order_witness:
  "Run (\<lambda>p. None) (example_traced_service (\<lambda>q. Some (Some (External 1), q))) (0, [])
     = Some (Some (External 1), 0, [EvStart]) \<and>
   Run (\<lambda>p. None) (example_traced_service (\<lambda>q. Some (None, q + 100))) (0, [])
     = Some (None, 111, [EvStart, EvWait, EvStop])"
proof -
  have a: "Run (\<lambda>p. None) (example_traced_service (\<lambda>q. Some (Some (External 1), q))) (0, [])
             = Some (Some (External 1), 0, [EvStart])"
    using Run_order [where s = "example_traced_service (\<lambda>q. Some (Some (External 1), q))"
              and p = "(0, [])" and e = "External 1" and ?p1.0 = "(0, [EvStart])",
            THEN conjunct1]
    by (simp add: example_traced_service_def traced_callback_def)
  have b: "Run (\<lambda>p. None) (example_traced_service (\<lambda>q. Some (None, q + 100))) (0, [])
             = Some (None, 111, [EvStart, EvWait, EvStop])"
    using Run_order [where s = "example_traced_service (\<lambda>q. Some (None, q + 100))"
              and p = "(0, [])" and ?p1.0 = "(100, [EvStart])" and runWait = "\<lambda>p. None",
            THEN conjunct2, THEN conjunct1]
    by (simp add: example_traced_service_def traced_callback_def traced_wait_def
                  getFuncSingle_def)
  from a b show ?thesis
    by simp
qed

section \<open>Properties: the script and its template\<close>

lemma template_Parse_runComScript:
  "template_Parse runComScript = Some
    [TText ''#!/bin/sh\<newline>#\<newline># $OpenBSD: '', TField ''SvcInfo'',
     TText (''\<newline>\<newline>daemon='' @ [CHR 0x22]), TField ''Path'',
     TText ([CHR 0x22] @ ''\<newline>daemon_flags=''), TPipe ''Arguments'' ''args'',
     TText ''\<newline>\<newline>. /etc/rc.d/rc.subr\<newline>\<newline>rc_bg=YES\<newline>\<newline>rc_cmd $1\<newline>'']"
  by code_simp

lemma template_default:
  assumes "\<forall>v. Option (Config s) optionRunComScript \<noteq> Some (VString v)"
  shows "template s = template_Parse runComScript"
  using assms by (auto simp: template_def getString_def split: option.splits optval.splits)

lemma dq_value_plain: "dq_plain t \<Longrightarrow> dq_value (t @ [CHR 0x22]) = Some t"
  by (induction t rule: dq_plain.induct)
     (auto simp: dq_escapable_def expansion_start_def)

text \<open>
  Claim C8, as the code has it.  The template function \<open>args\<close> joins the arguments with
  one space and puts the result between double quotes, with no escaping.  When the joined
  arguments hold nothing that is special between double quotes, the value is one quoted
  word that stands for the joined arguments.  For a service without a \<open>RunComScript\<close>
  option the built-in template parses, and executing it gives the script with
  \<open>daemon_flags\<close> set to that value, followed by \<open>rc_bg=YES\<close> and \<open>rc_cmd $1\<close>.
\<close>

theorem template_renders_args:
  "args sl = [CHR 0x22] @ strings_Join sl '' '' @ [CHR 0x22] \<and>
   (dq_plain (strings_Join sl '' '') \<longrightarrow>
      quoted_word (args sl) = Some (strings_Join sl '' '')) \<and>
   ((\<forall>v. Option (Config s) optionRunComScript \<noteq> Some (VString v)) \<longrightarrow>
      (\<exists>t. template s = Some t \<and>
           template_Execute t \<lparr>t_Config = Config s, t_Path = ep, t_SvcInfo = info\<rparr> =
             (''#!/bin/sh\<newline>#\<newline># $OpenBSD: '' @ info @
              ''\<newline>\<newline>daemon='' @ [CHR 0x22] @ ep @ [CHR 0x22] @
              ''\<newline>daemon_flags='' @ args (Arguments (Config s)) @
              ''\<newline>\<newline>. /etc/rc.d/rc.subr\<newline>\<newline>rc_bg=YES\<newline>\<newline>rc_cmd $1\<newline>'',
              None)))"
proof (intro conjI impI)
  show "args sl = [CHR 0x22] @ strings_Join sl '' '' @ [CHR 0x22]"
    by (simp add: args_def)
  show "quoted_word (args sl) = Some (strings_Join sl '' '')" if "dq_plain (strings_Join sl '' '')"
    using that by (simp add: quoted_word_def args_def dq_value_plain)
next
  assume "\<forall>v. Option (Config s) optionRunComScript \<noteq> Some (VString v)"
  then have "template s = template_Parse runComScript"
    by (rule template_default)
  then show "\<exists>t. template s = Some t \<and>
           template_Execute t \<lparr>t_Config = Config s, t_Path = ep, t_SvcInfo = info\<rparr> =
             (''#!/bin/sh\<newline>#\<newline># $OpenBSD: '' @ info @
              ''\<newline>\<newline>daemon='' @ [CHR 0x22] @ ep @ [CHR 0x22] @
              ''\<newline>daemon_flags='' @ args (Arguments (Config s)) @
              ''\<newline>\<newline>. /etc/rc.d/rc.subr\<newline>\<newline>rc_bg=YES\<newline>\<newline>rc_cmd $1\<newline>'',
              None)"
    by (simp add: template_Parse_runComScript lookup_field_def)
qed

theorem template_renders_args_witness:
  "args [''-s'', ''run''] = [CHR 0x22] @ ''-s run'' @ [CHR 0x22] \<and>
   quoted_word (args [''-s'', ''run'']) = Some ''-s run'' \<and>
   quoted_word (args [[CHR ''a'', CHR 0x5C, CHR ''b''], ''x$''])
     = Some ([CHR ''a'', CHR 0x5C, CHR ''b''] @ '' x$'') \<and>
   (\<exists>t. template (example_service Map.empty :: unit openbsdRunComService) = Some t \<and>
        template_Execute t
          \<lparr>t_Config = Config (example_service Map.empty :: unit openbsdRunComService),
           t_Path = ''/usr/local/bin/AdGuardHome'', t_SvcInfo = ''AdGuardHome''\<rparr> =
          (''#!/bin/sh\<newline>#\<newline># $OpenBSD: AdGuardHome\<newline>\<newline>'' @
           ''daemon='' @ [CHR 0x22] @ ''/usr/local/bin/AdGuardHome'' @ [CHR 0x22] @
           ''\<newline>daemon_flags='' @ [CHR 0x22] @ ''-s run'' @ [CHR 0x22] @
           ''\<newline>\<newline>. /etc/rc.d/rc.subr\<newline>\<newline>rc_bg=YES\<newline>\<newline>rc_cmd $1\<newline>'',
           None))"
proof -
  let ?s = "example_service Map.empty :: unit openbsdRunComService"
  have o: "\<forall>v. Option (Config ?s) optionRunComScript \<noteq> Some (VString v)"
    and a: "Arguments (Config ?s) = [''-s'', ''run'']"
    by (simp_all add: example_service_def)
  note th = template_renders_args
         [where sl = "[''-s'', ''run'']" and s = ?s and ep = "''/usr/local/bin/AdGuardHome''"
            and info = "''AdGuardHome''"]
  from th [THEN conjunct1]
  have 1: "args [''-s'', ''run''] = [CHR 0x22] @ ''-s run'' @ [CHR 0x22]"
    by simp
  have "dq_plain (strings_Join [''-s'', ''run''] '' '')"
    by (simp add: dq_escapable_def expansion_start_def)
  with th [THEN conjunct2, THEN conjunct1]
  have 2: "quoted_word (args [''-s'', ''run'']) = Some ''-s run''"
    by simp
  have "dq_plain (strings_Join [[CHR ''a'', CHR 0x5C, CHR ''b''], ''x$''] '' '')"
    by (simp add: dq_escapable_def expansion_start_def)
  with template_renders_args
         [where sl = "[[CHR ''a'', CHR 0x5C, CHR ''b''], ''x$'']" and s = ?s,
          THEN conjunct2, THEN conjunct1]
  have 4: "quoted_word (args [[CHR ''a'', CHR 0x5C, CHR ''b''], ''x$''])
             = Some ([CHR ''a'', CHR 0x5C, CHR ''b''] @ '' x$'')"
    by simp
  from th [THEN conjunct2, THEN conjunct2] o obtain t where t: "template ?s = Some t"
    and e: "template_Execute t
              \<lparr>t_Config = Config ?s, t_Path = ''/usr/local/bin/AdGuardHome'',
               t_SvcInfo = ''AdGuardHome''\<rparr> =
            (''#!/bin/sh\<newline>#\<newline># $OpenBSD: '' @ ''AdGuardHome'' @
             ''\<newline>\<newline>daemon='' @ [CHR 0x22] @ ''/usr/local/bin/AdGuardHome'' @ [CHR 0x22] @
             ''\<newline>daemon_flags='' @ args (Arguments (Config ?s)) @
             ''\<newline>\<newline>. /etc/rc.d/rc.subr\<newline>\<newline>rc_bg=YES\<newline>\<newline>rc_cmd $1\<newline>'',
             None)"
    by blast
  from t e have 3: "\<exists>t. template ?s = Some t \<and>
        template_Execute t
          \<lparr>t_Config = Config ?s,
           t_Path = ''/usr/local/bin/AdGuardHome'', t_SvcInfo = ''AdGuardHome''\<rparr> =
          (''#!/bin/sh\<newline>#\<newline># $OpenBSD: AdGuardHome\<newline>\<newline>'' @
           ''daemon='' @ [CHR 0x22] @ ''/usr/local/bin/AdGuardHome'' @ [CHR 0x22] @
           ''\<newline>daemon_flags='' @ [CHR 0x22] @ ''-s run'' @ [CHR 0x22] @
           ''\<newline>\<newline>. /etc/rc.d/rc.subr\<newline>\<newline>rc_bg=YES\<newline>\<newline>rc_cmd $1\<newline>'',
           None)"
    by (simp add: a args_def)
  from 1 2 4 3 show ?thesis
    by blast
qed

text \<open>
  Claim C8 as stated fails: the arguments are put between double quotes, not single
  quotes, and nothing is escaped.  Two arguments that hold a double quote give a
  \<open>daemon_flags\<close> value that is two quoted words; an argument that ends with a backslash
  escapes the closing quote; an argument \<open>$HOME\<close> is expanded by the shell.
\<close>

theorem template_args_counterexample:
  "args [[CHR ''a'', CHR 0x22], [CHR 0x22, CHR ''b'']] =
     [CHR 0x22, CHR ''a'', CHR 0x22, CHR '' '', CHR 0x22, CHR ''b'', CHR 0x22] \<and>
   quoted_word (args [[CHR ''a'', CHR 0x22], [CHR 0x22, CHR ''b'']]) = None \<and>
   args [[CHR ''a'', CHR 0x5C]] = [CHR 0x22, CHR ''a'', CHR 0x5C, CHR 0x22] \<and>
   quoted_word (args [[CHR ''a'', CHR 0x5C]]) = None \<and>
   quoted_word (args [''$HOME'']) = None"
  by (simp add: args_def quoted_word_def dq_escapable_def expansion_start_def)

lemma writeScript_collision:
  assumes "scriptPath s = Inr path"
    and "\<not> is_ErrNotExist (case os_Stat w path of Inl err \<Rightarrow> Some err | Inr info \<Rightarrow> None)"
  shows "writeScript s w = (Return (Some (Errorf (''script already exists at '' @ path))), w)"
  using assms by (simp add: writeScript_def)

lemma Install_collision:
  assumes "scriptPath s = Inr path"
    and "\<not> is_ErrNotExist (case os_Stat w path of Inl err \<Rightarrow> Some err | Inr info \<Rightarrow> None)"
  shows "Install s w =
     (Return (Some (Wrap (''installing openbsd-runcom '' @ Name (Config s) @ '' service'')
                      (Errorf (''script already exists at '' @ path)))), w)"
  by (simp add: Install_def writeScript_collision [OF assms] annotate_Some)

lemma execPath_not_Errorf: "execPath s w \<noteq> Inl (Errorf m)"
  by (auto simp: execPath_def filepath_Abs_def os_Executable_def os_Getwd_def
           split: sum.splits if_splits)

lemma template_Execute_error:
  "template_Execute t d = (out, Some e) \<Longrightarrow> \<exists>fld. e = ExecError fld"
  by (induction t d arbitrary: out rule: template_Execute.induct)
     (auto split: option.splits prod.splits tvalue.splits)

lemma writeScript_proceeds:
  assumes "scriptPath s = Inr path" and "os_Stat w path = Inl e" and "not_exist e"
  shows "fst (writeScript s w) \<noteq> Return (Some (Errorf m))"
  using assms execPath_not_Errorf [of s w m]
  by (auto simp: writeScript_def is_ErrNotExist_def errors_Annotate_def Let_def
           dest: template_Execute_error
           split: sum.splits option.splits prod.splits)

text \<open>
  Claim C10.  Let \<open>path\<close> be the script path.  When \<open>os.Stat(path)\<close> succeeds, or fails
  with an error that is not a not-exist error (a permission error, say), \<open>writeScript\<close>
  and \<open>Install\<close> return the error \<open>script already exists at path\<close> and leave the world
  as it was: no script is created and the startup configuration is not touched.  When
  \<open>os.Stat(path)\<close> fails with a not-exist error, that error is not returned: the call
  goes on, and once the executable path is found, the template parses and the file is
  created, the script exists afterwards.
\<close>

theorem Install_stat_collision:
  assumes "scriptPath s = Inr path"
  shows "((\<exists>nd. os_Stat w path = Inr nd) \<or> (\<exists>e. os_Stat w path = Inl e \<and> \<not> not_exist e) \<longrightarrow>
            writeScript s w =
              (Return (Some (Errorf (''script already exists at '' @ path))), w) \<and>
            Install s w =
              (Return (Some (Wrap (''installing openbsd-runcom '' @ Name (Config s) @ '' service'')
                               (Errorf (''script already exists at '' @ path)))), w)) \<and>
         ((\<exists>e. os_Stat w path = Inl e \<and> not_exist e) \<longrightarrow>
            fst (writeScript s w) \<noteq> Return (Some (Errorf (''script already exists at '' @ path))) \<and>
            (\<forall>ep t f w1. execPath s w = Inr ep \<and> template s = Some t \<and>
               os_Create w path = (Inr f, w1) \<longrightarrow> files (snd (writeScript s w)) path \<noteq> None))"
proof (intro conjI impI allI)
  assume a: "(\<exists>nd. os_Stat w path = Inr nd) \<or> (\<exists>e. os_Stat w path = Inl e \<and> \<not> not_exist e)"
  then have c: "\<not> is_ErrNotExist (case os_Stat w path of Inl err \<Rightarrow> Some err | Inr info \<Rightarrow> None)"
    by (auto simp: is_ErrNotExist_def)
  show "writeScript s w = (Return (Some (Errorf (''script already exists at '' @ path))), w)"
    by (rule writeScript_collision [OF assms c])
  show "Install s w =
              (Return (Some (Wrap (''installing openbsd-runcom '' @ Name (Config s) @ '' service'')
                               (Errorf (''script already exists at '' @ path)))), w)"
    by (rule Install_collision [OF assms c])
next
  assume "\<exists>e. os_Stat w path = Inl e \<and> not_exist e"
  then show "fst (writeScript s w) \<noteq> Return (Some (Errorf (''script already exists at '' @ path)))"
    using writeScript_proceeds [OF assms] by blast
next
  fix ep t f w1
  assume ne: "\<exists>e. os_Stat w path = Inl e \<and> not_exist e"
    and b: "execPath s w = Inr ep \<and> template s = Some t \<and> os_Create w path = (Inr f, w1)"
  from b have f: "f_name f = path" and w1: "\<exists>m. files w1 path = Some (RegFile [] m)"
    by (auto simp: os_Create_def opened_def split: option.splits node.splits)
  from ne have c: "is_ErrNotExist (case os_Stat w path of Inl err \<Rightarrow> Some err | Inr info \<Rightarrow> None)"
    by (auto simp: is_ErrNotExist_def)
  show "files (snd (writeScript s w)) path \<noteq> None"
    using assms b c f w1
    by (auto simp: writeScript_def Let_def flush_def os_Chmod_def
             split: prod.splits option.splits node.splits)
qed

definition stat_denied :: "sysop \<Rightarrow> string \<Rightarrow> fault option" where
  "stat_denied opn path = (if opn = OpStat then Some EACCES else None)"

lemma example_execPath:
  "execPath (example_service opts) (example_world fs flt) = Inr ''/usr/local/bin/AdGuardHome''"
  by (simp add: execPath_def example_service_def example_world_def filepath_Abs_def
                filepath_IsAbs_def filepath_Clean_def)

theorem Install_stat_collision_witness:
  "Install (example_service Map.empty :: unit openbsdRunComService)
      (example_world [''/etc/rc.d/AdGuardHome'' \<mapsto> RegFile ''#!/bin/sh'' 493] no_faults)
     = (Return (Some (Wrap ''installing openbsd-runcom AdGuardHome service''
                        (Errorf ''script already exists at /etc/rc.d/AdGuardHome''))),
        example_world [''/etc/rc.d/AdGuardHome'' \<mapsto> RegFile ''#!/bin/sh'' 493] no_faults) \<and>
   Install (example_service Map.empty :: unit openbsdRunComService)
      (example_world Map.empty stat_denied)
     = (Return (Some (Wrap ''installing openbsd-runcom AdGuardHome service''
                        (Errorf ''script already exists at /etc/rc.d/AdGuardHome''))),
        example_world Map.empty stat_denied) \<and>
   files (snd (writeScript (example_service Map.empty :: unit openbsdRunComService)
                 (example_world Map.empty no_faults))) ''/etc/rc.d/AdGuardHome'' \<noteq> None"
proof -
  let ?s = "example_service Map.empty :: unit openbsdRunComService"
  let ?p = "''/etc/rc.d/AdGuardHome''"
  let ?w1 = "example_world [?p \<mapsto> RegFile ''#!/bin/sh'' 493] no_faults"
  let ?w2 = "example_world Map.empty stat_denied"
  let ?w3 = "example_world Map.empty no_faults"
  have sp: "scriptPath ?s = Inr ?p"
    by (rule example_scriptPath)
  have n: "Name (Config ?s) = ''AdGuardHome''"
    by (simp add: example_service_def)
  have s1: "os_Stat ?w1 ?p = Inr (RegFile ''#!/bin/sh'' 493)"
    by (simp add: os_Stat_def example_world_def no_faults_def)
  have s2: "os_Stat ?w2 ?p = Inl (PathError ''stat'' ?p (Other EACCES))"
    by (simp add: os_Stat_def example_world_def stat_denied_def)
  have s3: "os_Stat ?w3 ?p = Inl (PathError ''stat'' ?p ENOENT)"
    by (simp add: os_Stat_def example_world_def no_faults_def)
  have t: "\<exists>t. template ?s = Some t"
    using template_default [of ?s]
    by (simp add: template_Parse_runComScript example_service_def)
  have c: "\<exists>f w1. os_Create ?w3 ?p = (Inr f, w1)"
    by (simp add: os_Create_def example_world_def no_faults_def)
  from Install_stat_collision [OF sp, of ?w1] s1
  have 1: "Install ?s ?w1 =
             (Return (Some (Wrap ''installing openbsd-runcom AdGuardHome service''
                              (Errorf ''script already exists at /etc/rc.d/AdGuardHome''))), ?w1)"
    by (simp add: n)
  from Install_stat_collision [OF sp, of ?w2] s2
  have 2: "Install ?s ?w2 =
             (Return (Some (Wrap ''installing openbsd-runcom AdGuardHome service''
                              (Errorf ''script already exists at /etc/rc.d/AdGuardHome''))), ?w2)"
    by (simp add: n)
  from Install_stat_collision [OF sp, of ?w3] s3 t c example_execPath [of Map.empty Map.empty no_faults]
  have 3: "files (snd (writeScript ?s ?w3)) ?p \<noteq> None"
    by auto
  from 1 2 3 show ?thesis
    by simp
qed

section \<open>The scanner reads the lines of the file\<close>

text \<open>
  What the scanner and the file together still hold: the unread part of the buffer,
  followed by the part of the file behind the offset.  \<open>scan_inv\<close> is the invariant of
  the scanner on a regular file; \<open>same_file\<close> says that two handles differ in their
  offset at most.  \<open>first_line\<close> is the text before the first newline, \<open>after_line\<close> the
  text behind it.
\<close>


definition pending :: "Scanner \<Rightarrow> osfile \<Rightarrow> string" where
  "pending s f = s_data s @ drop (f_offset f) (f_content f)"

definition scan_inv :: "Scanner \<Rightarrow> osfile \<Rightarrow> bool" where
  "scan_inv s f =
     (f_offset f \<le> length (f_content f) \<and>
      s_start s + length (s_data s) \<le> s_buflen s \<and>
      (s_err s = None \<or> (s_err s = Some EOF \<and> f_offset f = length (f_content f))))"

definition same_file :: "osfile \<Rightarrow> osfile \<Rightarrow> bool" where
  "same_file f f' =
     (f_name f' = f_name f \<and> f_isdir f' = f_isdir f \<and> f_content f' = f_content f)"

definition first_line :: "string \<Rightarrow> string" where
  "first_line r = takeWhile (\<lambda>c. c \<noteq> CHR 0x0A) r"

definition after_line :: "string \<Rightarrow> string" where
  "after_line r = drop (length (first_line r) + 1) r"

lemma first_line_append_nl:
  "CHR 0x0A \<in> set d \<Longrightarrow> first_line (d @ r) = first_line d"
  by (simp add: first_line_def takeWhile_append1 split: if_splits)

lemma first_line_no_nl: "CHR 0x0A \<notin> set d \<Longrightarrow> first_line d = d"
  unfolding first_line_def by (induction d) auto

lemma first_line_length_nl:
  "CHR 0x0A \<in> set d \<Longrightarrow> length (first_line d) < length d"
  unfolding first_line_def by (induction d) auto

lemma after_line_append_nl:
  "CHR 0x0A \<in> set d \<Longrightarrow> after_line (d @ r) = after_line d @ r"
  using first_line_length_nl [of d]
  by (simp add: after_line_def first_line_append_nl)

lemma after_line_no_nl: "CHR 0x0A \<notin> set d \<Longrightarrow> after_line d = []"
  by (simp add: after_line_def first_line_no_nl)

lemma first_line_prefix_no_nl:
  "CHR 0x0A \<notin> set d \<Longrightarrow> length d \<le> length (first_line (d @ r))"
  unfolding first_line_def by (induction d) auto

lemma scan_split_nl:
  "CHR 0x0A \<in> set (s_data s) \<Longrightarrow>
   scan_split s =
     (s\<lparr>s_start := s_start s + (length (first_line (s_data s)) + 1),
        s_data := after_line (s_data s),
        s_tok := dropCR (first_line (s_data s))\<rparr>,
      Some (dropCR (first_line (s_data s))))"
  by (auto simp: scan_split_def bufio_ScanLines_def first_line_def after_line_def Let_def)

lemma scan_split_eof:
  "CHR 0x0A \<notin> set (s_data s) \<Longrightarrow> s_err s \<noteq> None \<Longrightarrow> s_data s \<noteq> [] \<Longrightarrow>
   scan_split s =
     (s\<lparr>s_start := s_start s + length (s_data s), s_data := [],
        s_tok := dropCR (s_data s)\<rparr>,
      Some (dropCR (s_data s)))"
  by (simp add: scan_split_def bufio_ScanLines_def)

lemma scan_split_none:
  "CHR 0x0A \<notin> set (s_data s) \<Longrightarrow> s_err s = None \<or> s_data s = [] \<Longrightarrow>
   \<exists>s1. scan_split s = (s1, None) \<and> s_data s1 = s_data s \<and> s_start s1 = s_start s \<and>
        s_buflen s1 = s_buflen s \<and> s_err s1 = s_err s"
  by (auto simp: scan_split_def bufio_ScanLines_def)

lemma scan_pass_token_nl:
  assumes "scan_inv s f" and nl: "CHR 0x0A \<in> set (s_data s)"
  shows "\<exists>s'. scan_pass s f = Done True s' f \<and>
              s_tok s' = dropCR (first_line (pending s f)) \<and>
              pending s' f = after_line (pending s f) \<and> scan_inv s' f \<and> pending s f \<noteq> []"
proof -
  let ?s1 = "s\<lparr>s_start := s_start s + (length (first_line (s_data s)) + 1),
               s_data := after_line (s_data s),
               s_tok := dropCR (first_line (s_data s))\<rparr>"
  have p: "scan_pass s f = Done True ?s1 f"
    by (simp add: scan_pass_def scan_split_nl [OF nl])
  have l: "length (first_line (s_data s)) + 1 + length (after_line (s_data s)) = length (s_data s)"
    using first_line_length_nl [OF nl] by (simp add: after_line_def)
  have i: "scan_inv ?s1 f"
    using assms(1) l by (simp add: scan_inv_def)
  have ne: "pending s f \<noteq> []"
    using nl by (auto simp: pending_def)
  show ?thesis
    using p i ne nl
    by (simp add: pending_def first_line_append_nl after_line_append_nl)
qed

lemma scan_pass_token_eof:
  assumes "scan_inv s f" and nl: "CHR 0x0A \<notin> set (s_data s)"
    and e: "s_err s \<noteq> None" and d: "s_data s \<noteq> []"
  shows "\<exists>s'. scan_pass s f = Done True s' f \<and>
              s_tok s' = dropCR (first_line (pending s f)) \<and>
              pending s' f = after_line (pending s f) \<and> scan_inv s' f \<and> pending s f \<noteq> []"
proof -
  let ?s1 = "s\<lparr>s_start := s_start s + length (s_data s), s_data := [],
               s_tok := dropCR (s_data s)\<rparr>"
  have p: "scan_pass s f = Done True ?s1 f"
    by (simp add: scan_pass_def scan_split_eof [OF nl e d])
  from assms(1) e have off: "f_offset f = length (f_content f)"
    by (auto simp: scan_inv_def)
  then have pd: "pending s f = s_data s"
    by (simp add: pending_def)
  have i: "scan_inv ?s1 f"
    using assms(1) by (simp add: scan_inv_def)
  show ?thesis
    using p i d nl off
    by (simp add: pd first_line_no_nl after_line_no_nl) (simp add: pending_def)
qed

lemma scan_pass_end:
  assumes "scan_inv s f" and e: "s_err s \<noteq> None" and d: "s_data s = []"
  shows "\<exists>s'. scan_pass s f = Done False s' f \<and> s_err s' = Some EOF \<and> s_data s' = [] \<and>
              scan_inv s' f \<and> pending s f = []"
proof -
  from scan_split_none [of s] d obtain s1 where
    s1: "scan_split s = (s1, None)" "s_data s1 = s_data s" "s_start s1 = s_start s"
        "s_buflen s1 = s_buflen s" "s_err s1 = s_err s"
    by auto
  from assms(1) e have off: "f_offset f = length (f_content f)" and ee: "s_err s = Some EOF"
    by (auto simp: scan_inv_def)
  have p: "scan_pass s f = Done False (s1\<lparr>s_start := 0, s_data := []\<rparr>) f"
    using s1 e by (simp add: scan_pass_def)
  show ?thesis
    using p s1 ee off d by (simp add: scan_inv_def pending_def)
qed

lemma scan_shift_props:
  "s_data (scan_shift s) = s_data s" "s_err (scan_shift s) = s_err s"
  "s_buflen (scan_shift s) = s_buflen s"
  "scan_full (scan_shift s) \<Longrightarrow> s_start (scan_shift s) = 0"
  "s_start (scan_shift s) \<le> s_start s"
  by (auto simp: scan_shift_def scan_full_def)

lemma take_drop_length: "take k xs @ drop (length (take k xs)) xs = xs"
  by (cases "k \<le> length xs") (simp_all add: min_def)

lemma scan_read_spec:
  assumes "f_offset f \<le> length (f_content f)" and "s_err s = None"
    and "s_start s + length (s_data s) < s_buflen s"
  shows "\<exists>s' f'. scan_read s f = (s', f') \<and> scan_inv s' f' \<and> pending s' f' = pending s f \<and>
                 same_file f f' \<and> f_offset f \<le> f_offset f'"
proof (cases "f_offset f = length (f_content f)")
  case True
  then show ?thesis
    using assms by (simp add: scan_read_def file_Read_def scan_inv_def pending_def same_file_def)
next
  case False
  let ?k = "s_buflen s - (s_start s + length (s_data s))"
  let ?bs = "take ?k (drop (f_offset f) (f_content f))"
  from False assms have ne: "?bs \<noteq> []"
    by auto
  have r: "scan_read s f = (s\<lparr>s_data := s_data s @ ?bs\<rparr>, f\<lparr>f_offset := f_offset f + length ?bs\<rparr>)"
    using ne by (simp add: scan_read_def file_Read_def Let_def)
  have "?bs @ drop (length ?bs) (drop (f_offset f) (f_content f)) = drop (f_offset f) (f_content f)"
    by (rule take_drop_length)
  then have "?bs @ drop (f_offset f + length ?bs) (f_content f) = drop (f_offset f) (f_content f)"
    by (simp only: drop_drop add.commute)
  then have pd: "pending (s\<lparr>s_data := s_data s @ ?bs\<rparr>) (f\<lparr>f_offset := f_offset f + length ?bs\<rparr>)
                 = pending s f"
    by (simp add: pending_def)
  have i: "scan_inv (s\<lparr>s_data := s_data s @ ?bs\<rparr>) (f\<lparr>f_offset := f_offset f + length ?bs\<rparr>)"
    using assms by (simp add: scan_inv_def min_def) arith
  show ?thesis
    using r pd i by (simp add: same_file_def)
qed

lemma scan_pass_read:
  assumes inv: "scan_inv s f" and nl: "CHR 0x0A \<notin> set (s_data s)" and e: "s_err s = None"
    and short: "length (first_line (pending s f)) < MaxScanTokenSize"
  shows "\<exists>s' f'. scan_pass s f = More s' f' \<and> scan_inv s' f' \<and> pending s' f' = pending s f \<and>
                 same_file f f' \<and> f_offset f \<le> f_offset f'"
proof -
  from scan_split_none [OF nl] e obtain s1 where
    s1: "scan_split s = (s1, None)" "s_data s1 = s_data s" "s_start s1 = s_start s"
        "s_buflen s1 = s_buflen s" "s_err s1 = s_err s"
    by auto
  let ?s2 = "scan_shift s1"
  let ?s3 = "if scan_full ?s2 then scan_grow ?s2 else ?s2"
  have dl: "length (s_data s) < MaxScanTokenSize"
    using first_line_prefix_no_nl [OF nl, of "drop (f_offset f) (f_content f)"] short
    by (simp add: pending_def)
  have nofull: "\<not> (scan_full ?s2 \<and> MaxScanTokenSize \<le> s_buflen ?s2)"
  proof
    assume a: "scan_full ?s2 \<and> MaxScanTokenSize \<le> s_buflen ?s2"
    then have "s_start ?s2 = 0"
      by (simp add: scan_shift_props)
    with a have "length (s_data s) = s_buflen ?s2"
      by (simp add: scan_full_def scan_shift_props s1)
    with a dl show False
      by simp
  qed
  have p: "scan_pass s f = (case scan_read ?s3 f of (s4, f') \<Rightarrow> More s4 f')"
  proof (cases "scan_full ?s2")
    case True
    with nofull have "\<not> MaxScanTokenSize \<le> s_buflen ?s2"
      by simp
    with True s1 e show ?thesis
      by (simp add: scan_pass_def Let_def)
  next
    case False
    with s1 e show ?thesis
      by (simp add: scan_pass_def Let_def)
  qed
  have inv2: "s_start ?s2 + length (s_data ?s2) \<le> s_buflen ?s2"
    using inv scan_shift_props(5) [of s1] by (simp add: scan_inv_def scan_shift_props s1)
  have d3: "s_data ?s3 = s_data s" and e3: "s_err ?s3 = None"
    using e by (simp_all add: scan_grow_def scan_shift_props s1)
  have room: "s_start ?s3 + length (s_data ?s3) < s_buflen ?s3"
  proof (cases "scan_full ?s2")
    case True
    have z: "s_start ?s2 = 0"
      using True by (rule scan_shift_props(4))
    have l: "length (s_data s) = s_buflen ?s2"
      using True z by (simp add: scan_full_def scan_shift_props(1) s1)
    from nofull True have "s_buflen ?s2 < MaxScanTokenSize"
      by simp
    then show ?thesis
      using True l
      by (simp add: scan_grow_def scan_shift_props s1 startBufSize_def MaxScanTokenSize_def)
  next
    case False
    with inv2 show ?thesis
      by (simp add: scan_full_def)
  qed
  from inv have off: "f_offset f \<le> length (f_content f)"
    by (simp add: scan_inv_def)
  from scan_read_spec [OF off e3 room] obtain s' f' where
    r: "scan_read ?s3 f = (s', f')" "scan_inv s' f'" "pending s' f' = pending ?s3 f"
       "same_file f f'" "f_offset f \<le> f_offset f'"
    by blast
  have "pending ?s3 f = pending s f"
    using d3 by (simp add: pending_def)
  with p r show ?thesis
    by simp
qed

lemma bufio_Scan_spec:
  assumes "scan_inv s f" and "length (first_line (pending s f)) < MaxScanTokenSize"
  shows "\<exists>s' f'. bufio_Scan s f = (pending s f \<noteq> [], s', f') \<and> scan_inv s' f' \<and>
                 same_file f f' \<and> f_offset f \<le> f_offset f' \<and>
                 (if pending s f = [] then pending s' f' = [] \<and> Scanner_Err s' = None
                  else s_tok s' = dropCR (first_line (pending s f)) \<and>
                       pending s' f' = after_line (pending s f))"
  using assms
proof (induction s f rule: bufio_Scan.induct)
  case (1 s f)
  note inv = "1.prems"(1) and short = "1.prems"(2)
  show ?case
  proof (cases "CHR 0x0A \<in> set (s_data s)")
    case True
    from scan_pass_token_nl [OF inv True] show ?thesis
      by (auto simp: bufio_Scan.simps [of s f] same_file_def)
  next
    case nl: False
    show ?thesis
    proof (cases "s_err s = None")
      case True
      from scan_pass_read [OF inv nl True short] obtain s1 f1 where
        m: "scan_pass s f = More s1 f1" and i1: "scan_inv s1 f1"
        and p1: "pending s1 f1 = pending s f" and f1: "same_file f f1"
        and o1: "f_offset f \<le> f_offset f1"
        by blast
      from "1.IH" [OF m i1] short p1
      obtain s' f' where
        r: "bufio_Scan s1 f1 = (pending s f \<noteq> [], s', f')" "scan_inv s' f'"
           "same_file f1 f'" "f_offset f1 \<le> f_offset f'"
           "if pending s f = [] then pending s' f' = [] \<and> Scanner_Err s' = None
            else s_tok s' = dropCR (first_line (pending s f)) \<and>
                 pending s' f' = after_line (pending s f)"
        by auto
      have "same_file f f'"
        using r(3) f1 by (simp add: same_file_def)
      with r m o1 show ?thesis
        by (auto simp: bufio_Scan.simps [of s f])
    next
      case e: False
      show ?thesis
      proof (cases "s_data s = []")
        case True
        from scan_pass_end [OF inv e True] obtain s' where
          a: "scan_pass s f = Done False s' f" "s_err s' = Some EOF" "s_data s' = []"
             "scan_inv s' f" "pending s f = []"
          by blast
        have b: "bufio_Scan s f = (False, s', f)"
          using a(1) by (simp add: bufio_Scan.simps [of s f])
        have c: "pending s' f = []"
          using a by (simp add: pending_def scan_inv_def)
        have d: "Scanner_Err s' = None"
          using a(2) by (simp add: Scanner_Err_def)
        show ?thesis
          using a b c d by (intro exI [of _ s'] exI [of _ f]) (simp add: same_file_def)
      next
        case False
        from scan_pass_token_eof [OF inv nl e False] show ?thesis
          by (auto simp: bufio_Scan.simps [of s f] same_file_def)
      qed
    qed
  qed
qed

lemma after_line_shorter: "r \<noteq> [] \<Longrightarrow> length (after_line r) < length r"
  by (cases r) (simp_all add: after_line_def)

text \<open>
  The loop of \<open>modifyRCConfLocal\<close> on the text that is still to be read, line by line:
  the last value of \<open>prefIdx\<close>, the last line and the text behind the line it stopped
  at.  \<open>scan_loop_spec\<close> below shows that the loop over the scanner computes this, when
  no line reaches \<open>MaxScanTokenSize\<close> bytes (\<open>short_lines\<close>).
\<close>

function lines_loop :: "int \<Rightarrow> string \<Rightarrow> string \<Rightarrow> int \<times> string \<times> string" where
  "lines_loop prefIdx ln r =
     (if r = [] then (prefIdx, ln, [])
      else
        (let ln' = strings_TrimSpace (dropCR (first_line r))
         in if ln' = [] then lines_loop prefIdx ln' (after_line r)
            else
              (let prefIdx' = strings_Index ln' pref
               in if prefIdx' = 0 then (prefIdx', ln', after_line r)
                  else lines_loop prefIdx' ln' (after_line r))))"
  by pat_completeness auto
termination
  by (relation "measure (\<lambda>(p, l, r). length r)") (auto simp: after_line_shorter)

declare lines_loop.simps [simp del]

definition short_lines :: "string \<Rightarrow> bool" where
  "short_lines c = list_all (\<lambda>l. length l < MaxScanTokenSize) (strings_Split c (CHR 0x0A))"

lemma strings_Split_nonempty: "strings_Split r sep \<noteq> []"
  by (induction r) (auto split: list.splits)

lemma strings_Split_first_line:
  "strings_Split r (CHR 0x0A) =
     first_line r # (if CHR 0x0A \<in> set r then strings_Split (after_line r) (CHR 0x0A) else [])"
proof (induction r)
  case Nil
  then show ?case
    by (simp add: first_line_def)
next
  case (Cons c r)
  show ?case
  proof (cases "c = CHR 0x0A")
    case True
    then show ?thesis
      by (simp add: first_line_def after_line_def)
  next
    case False
    with Cons show ?thesis
      by (auto simp: first_line_def after_line_def split: list.splits)
  qed
qed

lemma short_lines_step:
  assumes "short_lines r"
  shows "length (first_line r) < MaxScanTokenSize" and "short_lines (after_line r)"
proof -
  from assms show "length (first_line r) < MaxScanTokenSize"
    by (subst (asm) short_lines_def, subst (asm) strings_Split_first_line) simp
  show "short_lines (after_line r)"
  proof (cases "CHR 0x0A \<in> set r")
    case True
    with assms show ?thesis
      by (subst (asm) short_lines_def, subst (asm) strings_Split_first_line)
         (simp add: short_lines_def)
  next
    case False
    then show ?thesis
      by (simp add: after_line_no_nl short_lines_def MaxScanTokenSize_def)
  qed
qed

lemma scan_loop_spec:
  assumes "scan_inv s f" and "short_lines (pending s f)"
  shows "\<exists>p' ln' s' f'. scan_loop p ln s f = (p', ln', s', f') \<and>
           lines_loop p ln (pending s f) = (p', ln', pending s' f') \<and>
           scan_inv s' f' \<and> same_file f f' \<and> f_offset f \<le> f_offset f' \<and>
           Scanner_Err s' = None"
  using assms
proof (induction "length (pending s f)" arbitrary: p ln s f rule: less_induct)
  case less
  note inv = less.prems(1) and short = less.prems(2)
  from bufio_Scan_spec [OF inv short_lines_step(1) [OF short]]
  obtain s1 f1 where
    sc: "bufio_Scan s f = (pending s f \<noteq> [], s1, f1)" and i1: "scan_inv s1 f1"
    and sf: "same_file f f1" and o1: "f_offset f \<le> f_offset f1"
    and r: "if pending s f = [] then pending s1 f1 = [] \<and> Scanner_Err s1 = None
            else s_tok s1 = dropCR (first_line (pending s f)) \<and>
                 pending s1 f1 = after_line (pending s f)"
    by blast
  show ?case
  proof (cases "pending s f = []")
    case True
    with sc r have "scan_loop p ln s f = (p, ln, s1, f1)"
      by (simp add: scan_loop.simps [of p ln s f])
    moreover from True r have "lines_loop p ln (pending s f) = (p, ln, pending s1 f1)"
      by (simp add: lines_loop.simps [of p ln "[]"])
    ultimately show ?thesis
      using i1 sf o1 r True by simp
  next
    case False
    let ?ln = "strings_TrimSpace (dropCR (first_line (pending s f)))"
    from False r have tok: "s_tok s1 = dropCR (first_line (pending s f))"
      and p1: "pending s1 f1 = after_line (pending s f)"
      by simp_all
    have lt: "length (pending s1 f1) < length (pending s f)"
      using False p1 by (simp add: after_line_shorter)
    have sh1: "short_lines (pending s1 f1)"
      using short_lines_step(2) [OF short] p1 by simp
    have e1: "Scanner_Err s1 = None"
      using i1 by (auto simp: scan_inv_def Scanner_Err_def)
    have rec: "\<And>q l. \<exists>p' ln' s' f'. scan_loop q l s1 f1 = (p', ln', s', f') \<and>
           lines_loop q l (pending s1 f1) = (p', ln', pending s' f') \<and>
           scan_inv s' f' \<and> same_file f f' \<and> f_offset f \<le> f_offset f' \<and>
           Scanner_Err s' = None"
    proof -
      fix q l
      from less.hyps [OF lt i1 sh1, of q l] obtain p' ln' s' f' where
        a: "scan_loop q l s1 f1 = (p', ln', s', f')"
           "lines_loop q l (pending s1 f1) = (p', ln', pending s' f')"
           "scan_inv s' f'" "same_file f1 f'" "f_offset f1 \<le> f_offset f'"
           "Scanner_Err s' = None"
        by blast
      from a(4) sf have "same_file f f'"
        by (simp add: same_file_def)
      with a o1 show "\<exists>p' ln' s' f'. scan_loop q l s1 f1 = (p', ln', s', f') \<and>
           lines_loop q l (pending s1 f1) = (p', ln', pending s' f') \<and>
           scan_inv s' f' \<and> same_file f f' \<and> f_offset f \<le> f_offset f' \<and>
           Scanner_Err s' = None"
        by auto
    qed
    show ?thesis
    proof (cases "?ln = []")
      case True
      have "scan_loop p ln s f = scan_loop p ?ln s1 f1"
        using sc False tok True by (simp add: scan_loop.simps [of p ln s f])
      moreover have "lines_loop p ln (pending s f) = lines_loop p ?ln (pending s1 f1)"
        using False True p1 by (simp add: lines_loop.simps [of p ln "pending s f"])
      ultimately show ?thesis
        using rec [of p ?ln] by simp
    next
      case ne: False
      show ?thesis
      proof (cases "strings_Index ?ln pref = 0")
        case True
        have "scan_loop p ln s f = (0, ?ln, s1, f1)"
          using sc False tok ne True by (simp add: scan_loop.simps [of p ln s f] Let_def)
        moreover have "lines_loop p ln (pending s f) = (0, ?ln, pending s1 f1)"
          using False ne True p1
          by (simp add: lines_loop.simps [of p ln "pending s f"] Let_def)
        ultimately show ?thesis
          using i1 sf o1 e1 by simp
      next
        case nz: False
        have "scan_loop p ln s f = scan_loop (strings_Index ?ln pref) ?ln s1 f1"
          using sc False tok ne nz by (simp add: scan_loop.simps [of p ln s f] Let_def)
        moreover have "lines_loop p ln (pending s f) =
                         lines_loop (strings_Index ?ln pref) ?ln (pending s1 f1)"
          using False ne nz p1
          by (simp add: lines_loop.simps [of p ln "pending s f"] Let_def)
        ultimately show ?thesis
          using rec [of "strings_Index ?ln pref" ?ln] by simp
      qed
    qed
  qed
qed


lemma scan_inv_New: "scan_inv bufio_NewScanner (opened nm c)"
  by (simp add: scan_inv_def bufio_NewScanner_def opened_def)

lemma pending_New: "pending bufio_NewScanner (opened nm c) = c"
  by (simp add: pending_def bufio_NewScanner_def opened_def)


lemma lines_loop_nonempty:
  "lines_loop (- 2) ln r = (p', ln', rest) \<Longrightarrow> p' \<noteq> - 2 \<Longrightarrow> r \<noteq> []"
  by (auto simp: lines_loop.simps [of "- 2" ln "[]"])

text \<open>
  What \<open>modifyRCConfLocal\<close> writes, when the scanner has read the file to its end: the
  content of the file afterwards.
\<close>

definition registered :: "int \<Rightarrow> string \<Rightarrow> string \<Rightarrow> string \<Rightarrow> string" where
  "registered prefIdx ln name c =
     (if prefIdx = - 2 then c @ pref @ name @ ''\<newline>''
      else if prefIdx = 0 then
        (let svcs = strings_Split (drop (length pref) ln) (CHR '' '')
         in if name \<in> set svcs then c
            else butlast c @ (if hd svcs \<noteq> [] then '' '' else []) @ name @ ''\<newline>'')
      else c @ ''\<newline>'' @ pref @ name @ ''\<newline>'')"

lemma file_WriteString_name:
  "f_name (file_WriteString f t) = f_name f" "f_isdir (file_WriteString f t) = f_isdir f"
  by (simp_all add: file_WriteString_def Let_def)

lemma modifyRCConfLocal_at_end:
  assumes loop: "scan_loop (- 2) [] bufio_NewScanner (opened nm c) = (p, ln, s', f')"
    and same: "same_file (opened nm c) f'" and off: "f_offset f' = length c"
    and err: "Scanner_Err s' = None" and ne: "p = 0 \<longrightarrow> c \<noteq> []"
  shows "\<exists>f''. modifyRCConfLocal s (opened nm c) = (None, f'') \<and> f_name f'' = nm \<and>
               f_isdir f'' = False \<and>
               f_content f'' = registered p ln (Name (Config s)) c"
proof -
  from same have c: "f_content f' = c" and n: "f_name f' = nm" and d: "f_isdir f' = False"
    by (simp_all add: same_file_def opened_def)
  have w: "\<And>t. f_content (file_WriteString f' t) = c @ t"
    using c off by (simp add: file_WriteString_def Let_def)
  show ?thesis
  proof (cases "p = 0")
    case True
    with ne have cne: "c \<noteq> []"
      by simp
    then have seek: "file_Seek_back1 f' = Inr (f'\<lparr>f_offset := length c - 1\<rparr>)"
      using off by (simp add: file_Seek_back1_def)
    have w2: "\<And>t. t \<noteq> [] \<Longrightarrow>
                f_content (file_WriteString (f'\<lparr>f_offset := length c - 1\<rparr>) t) = butlast c @ t"
    proof -
      fix t :: string
      assume "t \<noteq> []"
      then have "length c \<le> length c - 1 + length t"
        by (cases t) simp_all
      then show "f_content (file_WriteString (f'\<lparr>f_offset := length c - 1\<rparr>) t) = butlast c @ t"
        using c cne by (simp add: file_WriteString_def Let_def butlast_conv_take)
    qed
    have nonempty: "strings_Split (drop (length pref) ln) (CHR '' '') \<noteq> []"
      by (rule strings_Split_nonempty)
    show ?thesis
      using True loop err seek w2 n d c nonempty
      by (simp add: modifyRCConfLocal_def registered_def stringutil_InSlice_def Let_def
                    file_WriteString_name)
  next
    case False
    then show ?thesis
      using loop err w n d
      by (simp add: modifyRCConfLocal_def registered_def file_WriteString_name Let_def)
  qed
qed

lemma modifyRCConfLocal_last_line:
  assumes short: "short_lines c" and ll: "lines_loop (- 2) [] c = (p, ln, [])"
  shows "\<exists>f''. modifyRCConfLocal s (opened nm c) = (None, f'') \<and> f_name f'' = nm \<and>
               f_isdir f'' = False \<and>
               f_content f'' = registered p ln (Name (Config s)) c"
proof -
  from short have "short_lines (pending bufio_NewScanner (opened nm c))"
    by (simp add: pending_New)
  from scan_loop_spec [OF scan_inv_New this, of "- 2" "[]"] ll
  obtain s' f' where
    loop: "scan_loop (- 2) [] bufio_NewScanner (opened nm c) = (p, ln, s', f')"
    and pd: "pending s' f' = []" and inv: "scan_inv s' f'"
    and same: "same_file (opened nm c) f'" and err: "Scanner_Err s' = None"
    by (auto simp: pending_New)
  from same have c: "f_content f' = c"
    by (simp add: same_file_def opened_def)
  from pd have "length c \<le> f_offset f'"
    by (simp add: pending_def c)
  with inv c have off: "f_offset f' = length c"
    by (simp add: scan_inv_def)
  have ne: "p = 0 \<longrightarrow> c \<noteq> []"
    using lines_loop_nonempty [OF ll] by simp
  show ?thesis
    by (rule modifyRCConfLocal_at_end [OF loop same off err ne])
qed

lemma strings_Split_length: "\<forall>l\<in>set (strings_Split c sep). length l \<le> length c"
proof (induction c)
  case Nil
  then show ?case by simp
next
  case (Cons a c)
  then show ?case
    using strings_Split_nonempty [of c sep]
    by (cases "strings_Split c sep") (auto simp: le_Suc_eq)
qed

lemma short_lines_small: "length c < MaxScanTokenSize \<Longrightarrow> short_lines c"
  using strings_Split_length [of c "CHR 0x0A"]
  by (fastforce simp: short_lines_def list_all_iff)

lemma first_pass_small:
  assumes "c \<noteq> []" and "length c \<le> startBufSize"
  shows "scan_pass bufio_NewScanner (opened nm c) =
           More (bufio_NewScanner\<lparr>s_buflen := startBufSize, s_data := c\<rparr>)
                ((opened nm c)\<lparr>f_offset := length c\<rparr>)"
  using assms
  by (simp add: scan_pass_def scan_split_def bufio_NewScanner_def scan_shift_def
                scan_full_def scan_grow_def scan_read_def file_Read_def opened_def
                MaxScanTokenSize_def startBufSize_def Let_def)

lemma modifyRCConfLocal_small:
  assumes ne: "c \<noteq> []" and small: "length c \<le> startBufSize"
    and ll: "lines_loop (- 2) [] c = (p, ln, rest)"
  shows "\<exists>f''. modifyRCConfLocal s (opened nm c) = (None, f'') \<and> f_name f'' = nm \<and>
               f_isdir f'' = False \<and>
               f_content f'' = registered p ln (Name (Config s)) c"
proof -
  let ?s1 = "bufio_NewScanner\<lparr>s_buflen := startBufSize, s_data := c\<rparr>"
  let ?f1 = "(opened nm c)\<lparr>f_offset := length c\<rparr>"
  have sc: "bufio_Scan bufio_NewScanner (opened nm c) = bufio_Scan ?s1 ?f1"
    by (simp add: bufio_Scan.simps [of bufio_NewScanner "opened nm c"]
                  first_pass_small [OF ne small])
  have l0: "scan_loop (- 2) [] bufio_NewScanner (opened nm c) = scan_loop (- 2) [] ?s1 ?f1"
    by (simp add: scan_loop.simps [of "- 2" "[]" bufio_NewScanner "opened nm c"]
                  scan_loop.simps [of "- 2" "[]" ?s1 ?f1] sc)
  have inv1: "scan_inv ?s1 ?f1"
    using small by (simp add: scan_inv_def bufio_NewScanner_def opened_def)
  have p1: "pending ?s1 ?f1 = c"
    by (simp add: pending_def opened_def)
  from small have "short_lines c"
    by (intro short_lines_small) (simp add: startBufSize_def MaxScanTokenSize_def)
  then have "short_lines (pending ?s1 ?f1)"
    by (simp add: p1)
  from scan_loop_spec [OF inv1 this, of "- 2" "[]"] ll
  obtain s' f' where
    loop: "scan_loop (- 2) [] ?s1 ?f1 = (p, ln, s', f')" and inv: "scan_inv s' f'"
    and same: "same_file ?f1 f'" and o: "f_offset ?f1 \<le> f_offset f'"
    and err: "Scanner_Err s' = None"
    by (auto simp: p1)
  from same have same0: "same_file (opened nm c) f'" and c: "f_content f' = c"
    by (simp_all add: same_file_def opened_def)
  from inv o c have off: "f_offset f' = length c"
    by (simp add: scan_inv_def opened_def)
  from loop l0 have loop0: "scan_loop (- 2) [] bufio_NewScanner (opened nm c) = (p, ln, s', f')"
    by simp
  show ?thesis
    using modifyRCConfLocal_at_end [OF loop0 same0 off err] ne by simp
qed









section \<open>Properties: registration in the startup configuration\<close>

text \<open>
  The list of names that \<open>modifyRCConfLocal\<close> recognizes in a file of content \<open>c\<close>: the
  names on the line its scan stops at, the first line that starts with \<open>pkg_scripts=\<close>
  once trimmed; \<open>None\<close> when the scan finds no such line.
\<close>

definition startup_list :: "string \<Rightarrow> string list option" where
  "startup_list c =
     (case scan_loop (- 2) [] bufio_NewScanner (opened filename c) of
        (prefIdx, ln, scn, file) \<Rightarrow>
          if Scanner_Err scn = None \<and> prefIdx = 0
          then Some (strings_Split (drop (length pref) ln) (CHR '' ''))
          else None)"


lemma startup_list_lines:
  assumes "short_lines c"
  shows "startup_list c =
           (case lines_loop (- 2) [] c of
              (p, ln, rest) \<Rightarrow>
                if p = 0 then Some (strings_Split (drop (length pref) ln) (CHR '' '')) else None)"
proof -
  from assms have "short_lines (pending bufio_NewScanner (opened filename c))"
    by (simp add: pending_New)
  from scan_loop_spec [OF scan_inv_New this, of "- 2" "[]"]
  show ?thesis
    by (auto simp: startup_list_def pending_New)
qed







lemma short_lines_Nil: "short_lines []"
  by (simp add: short_lines_def MaxScanTokenSize_def)








lemma lines_loop_Nil: "lines_loop p l [] = (p, l, [])"
  by (simp add: lines_loop.simps [of p l "[]"])

subsection \<open>White space and trimming\<close>

text \<open>
  A text of white space only: \<open>strings.TrimSpace\<close> leaves nothing of it.  The encodings
  of the white-space runes are a prefix code and a suffix code, so such a text is a
  sequence of white-space runes, and trimming a text removes such a sequence at either
  end.
\<close>

definition white :: "string \<Rightarrow> bool" where
  "white w = (strings_TrimLeft_space w = [])"

lemma space_runes_prefix_code:
  "list_all (\<lambda>b. list_all (\<lambda>a. prefix a b \<longrightarrow> a = b) space_runes) space_runes"
  by code_simp

lemma space_runes_suffix_code:
  "list_all (\<lambda>b. list_all (\<lambda>a. suffix a b \<longrightarrow> a = b) space_runes) space_runes"
  by code_simp

lemma space_runes_prefix_free:
  "a \<in> set space_runes \<Longrightarrow> b \<in> set space_runes \<Longrightarrow> prefix a b \<Longrightarrow> a = b"
  using space_runes_prefix_code by (simp add: list_all_iff)

lemma space_runes_suffix_free:
  "a \<in> set space_runes \<Longrightarrow> b \<in> set space_runes \<Longrightarrow> suffix a b \<Longrightarrow> a = b"
  using space_runes_suffix_code by (simp add: list_all_iff)

lemma space_prefix_len_rune:
  assumes "r \<in> set space_runes"
  shows "space_prefix_len (r @ x) = length r"
proof (cases "find (\<lambda>w. prefix w (r @ x)) space_runes")
  case None
  with assms show ?thesis
    by (auto simp: find_None_iff)
next
  case (Some w)
  then have w: "w \<in> set space_runes" and p: "prefix w (r @ x)"
    by (auto simp: find_Some_iff)
  have "prefix r (r @ x)"
    by simp
  with p have "prefix w r \<or> prefix r w"
    by (rule prefix_same_cases)
  with w assms have "w = r"
    by (auto dest: space_runes_prefix_free)
  with Some show ?thesis
    by (simp add: space_prefix_len_def)
qed

lemma space_suffix_len_rune:
  assumes "r \<in> set space_runes"
  shows "space_suffix_len (x @ r) = length r"
proof (cases "find (\<lambda>w. suffix w (x @ r)) space_runes")
  case None
  then have "\<not> suffix r (x @ r)"
    using assms by (simp add: find_None_iff)
  then show ?thesis
    by (simp add: suffix_def)
next
  case (Some w)
  then have w: "w \<in> set space_runes" and p: "suffix w (x @ r)"
    by (auto simp: find_Some_iff)
  have "suffix r (x @ r)"
    by (simp add: suffix_def)
  with p have "suffix w r \<or> suffix r w"
    by (rule suffix_same_cases)
  with w assms have "w = r"
    by (auto dest: space_runes_suffix_free)
  with Some show ?thesis
    by (simp add: space_suffix_len_def)
qed

lemma space_prefix_len_Nil: "space_prefix_len [] = 0"
  by (simp add: space_prefix_len_def space_runes_def)


lemma white_Nil: "white []"
  by (simp add: white_def strings_TrimLeft_space.simps [of "[]"] space_prefix_len_Nil)

lemma strings_TrimLeft_space_rune:
  assumes "r \<in> set space_runes"
  shows "strings_TrimLeft_space (r @ x) = strings_TrimLeft_space x"
  using assms space_runes_nonempty [OF assms]
  by (simp add: strings_TrimLeft_space.simps [of "r @ x"] space_prefix_len_rune)

lemma strings_TrimRight_space_rune:
  assumes "r \<in> set space_runes"
  shows "strings_TrimRight_space (x @ r) = strings_TrimRight_space x"
  using assms space_runes_nonempty [OF assms]
  by (simp add: strings_TrimRight_space.simps [of "x @ r"] space_suffix_len_rune)

lemma white_rune_append: "r \<in> set space_runes \<Longrightarrow> white (r @ w) = white w"
  by (simp add: white_def strings_TrimLeft_space_rune)

lemma white_cases:
  assumes "white w" and "w \<noteq> []"
  shows "\<exists>r\<in>set space_runes. \<exists>w'. w = r @ w' \<and> white w'"
proof (cases "find (\<lambda>r. prefix r w) space_runes")
  case None
  then have "space_prefix_len w = 0"
    by (simp add: space_prefix_len_def)
  with assms show ?thesis
    by (simp add: white_def strings_TrimLeft_space.simps [of w])
next
  case (Some r)
  then have r: "r \<in> set space_runes" and p: "prefix r w"
    by (auto simp: find_Some_iff)
  from p obtain w' where w: "w = r @ w'"
    by (auto simp: prefix_def)
  with assms(1) r have "white w'"
    by (simp add: white_rune_append)
  with r w show ?thesis
    by blast
qed

lemma white_induct [consumes 1, case_names Nil rune]:
  assumes "white w" and "P []"
    and "\<And>r w. r \<in> set space_runes \<Longrightarrow> white w \<Longrightarrow> P w \<Longrightarrow> P (r @ w)"
  shows "P w"
  using assms(1)
proof (induction "length w" arbitrary: w rule: less_induct)
  case less
  show ?case
  proof (cases "w = []")
    case True
    with assms(2) show ?thesis
      by simp
  next
    case False
    from white_cases [OF less.prems False] obtain r w' where
      r: "r \<in> set space_runes" and w: "w = r @ w'" and ww: "white w'"
      by blast
    from space_runes_nonempty [OF r] w have "length w' < length w"
      by simp
    from less.hyps [OF this ww] assms(3) [OF r ww] w show ?thesis
      by simp
  qed
qed

lemma strings_TrimLeft_space_white:
  "white w \<Longrightarrow> strings_TrimLeft_space (w @ x) = strings_TrimLeft_space x"
proof (induction rule: white_induct)
  case Nil
  then show ?case by simp
next
  case (rune r w)
  have "strings_TrimLeft_space (r @ (w @ x)) = strings_TrimLeft_space (w @ x)"
    using rune(1) by (rule strings_TrimLeft_space_rune)
  with rune(3) show ?case
    by simp
qed

lemma white_append:
  assumes "white a" and "white b"
  shows "white (a @ b)"
proof -
  have "strings_TrimLeft_space (a @ b) = strings_TrimLeft_space b"
    using assms(1) by (rule strings_TrimLeft_space_white)
  with assms(2) show ?thesis
    by (simp add: white_def)
qed

lemma white_rune: "r \<in> set space_runes \<Longrightarrow> white r"
  using white_rune_append [of r "[]"] by (simp add: white_Nil)

lemma white_snoc_cases:
  assumes "white w" and "w \<noteq> []"
  shows "\<exists>r\<in>set space_runes. \<exists>w'. w = w' @ r \<and> white w'"
  using assms
proof (induction rule: white_induct)
  case Nil
  then show ?case by simp
next
  case (rune r w)
  show ?case
  proof (cases "w = []")
    case True
    with rune(1) white_Nil show ?thesis
      by (intro bexI [of _ r] exI [of _ "[]"]) simp_all
  next
    case False
    from rune(3) [OF False] obtain r2 w2 where
      a: "r2 \<in> set space_runes" "w = w2 @ r2" "white w2"
      by blast
    from a(3) rune(1) have "white (r @ w2)"
      by (simp add: white_rune_append)
    with a show ?thesis
      by (intro bexI [of _ r2] exI [of _ "r @ w2"]) simp_all
  qed
qed

lemma strings_TrimRight_space_white:
  "white w \<Longrightarrow> strings_TrimRight_space (x @ w) = strings_TrimRight_space x"
proof (induction "length w" arbitrary: w rule: less_induct)
  case less
  show ?case
  proof (cases "w = []")
    case True
    then show ?thesis by simp
  next
    case False
    from white_snoc_cases [OF less.prems False] obtain r w' where
      r: "r \<in> set space_runes" and w: "w = w' @ r" and ww: "white w'"
      by blast
    from space_runes_nonempty [OF r] w have "length w' < length w"
      by simp
    from less.hyps [OF this ww] have "strings_TrimRight_space (x @ w') = strings_TrimRight_space x" .
    moreover have "strings_TrimRight_space ((x @ w') @ r) = strings_TrimRight_space (x @ w')"
      using r by (rule strings_TrimRight_space_rune)
    ultimately show ?thesis
      by (simp add: w)
  qed
qed



lemma strings_TrimRight_space_decomp:
  "\<exists>trail. white trail \<and> x = strings_TrimRight_space x @ trail"
proof (induction x rule: strings_TrimRight_space.induct)
  case (1 s)
  show ?case
  proof (cases "space_suffix_len s = 0")
    case True
    then show ?thesis
      using white_Nil by (intro exI [of _ "[]"]) (simp add: strings_TrimRight_space.simps [of s])
  next
    case False
    let ?s' = "take (length s - space_suffix_len s) s"
    from "1.IH" [OF False] obtain trail where
      l: "white trail" "?s' = strings_TrimRight_space ?s' @ trail"
      by blast
    from False obtain r where f: "find (\<lambda>w. suffix w s) space_runes = Some r"
      by (cases "find (\<lambda>w. suffix w s) space_runes") (auto simp: space_suffix_len_def)
    then have r: "r \<in> set space_runes" and p: "suffix r s"
      by (auto simp: find_Some_iff)
    from f have k: "space_suffix_len s = length r"
      by (simp add: space_suffix_len_def)
    from p obtain s0 where s: "s = s0 @ r"
      by (auto simp: suffix_def)
    have s': "?s' = s0"
      unfolding k by (simp add: s)
    have t: "strings_TrimRight_space s = strings_TrimRight_space s0"
      unfolding s using r by (rule strings_TrimRight_space_rune)
    have "white (trail @ r)"
      using l(1) white_rune [OF r] by (rule white_append)
    moreover have "s = strings_TrimRight_space s @ (trail @ r)"
      using l(2) by (simp add: s' t) (simp add: s)
    ultimately show ?thesis
      by blast
  qed
qed


lemma strings_TrimLeft_space_fix: "space_prefix_len (strings_TrimLeft_space x) = 0"
  by (induction x rule: strings_TrimLeft_space.induct)
     (simp add: strings_TrimLeft_space.simps)


lemma space_prefix_len_0: "space_prefix_len n = 0 \<longleftrightarrow> (\<forall>r\<in>set space_runes. \<not> prefix r n)"
  using space_runes_nonempty
  by (auto simp: space_prefix_len_def find_None_iff find_Some_iff split: option.splits)

lemma strings_TrimSpace_Nil_white:
  assumes "strings_TrimSpace w = []"
  shows "white w"
proof -
  let ?m = "strings_TrimLeft_space w"
  from strings_TrimRight_space_decomp [of ?m] assms obtain trail where
    t: "white trail" "?m = trail"
    by (auto simp: strings_TrimSpace_def)
  have "space_prefix_len ?m = 0"
    by (rule strings_TrimLeft_space_fix)
  then have "strings_TrimLeft_space ?m = ?m"
    by (simp add: strings_TrimLeft_space.simps [of ?m])
  with t have "?m = []"
    by (simp add: white_def)
  then show ?thesis
    by (simp add: white_def)
qed












subsection \<open>The scan of a file and of the file with a name added\<close>
















subsection \<open>Two runs of the registration\<close>














text \<open>
  A service of a given name, and one run of the registration for it on a file of a
  given content: the error and the content afterwards.
\<close>

definition service_named :: "string \<Rightarrow> unit openbsdRunComService" where
  "service_named n =
     \<lparr>i = \<lparr>i_Start = (\<lambda>p. Some (None, p)), i_Stop = (\<lambda>p. Some (None, p))\<rparr>,
      Config = \<lparr>Name = n, DisplayName = [], Executable = [], Arguments = [],
                Option = Map.empty\<rparr>\<rparr>"

definition run_registration :: "string \<Rightarrow> string \<Rightarrow> error option \<times> string" where
  "run_registration n c =
     (case modifyRCConfLocal (service_named n) (opened filename c) of
        (err, f) \<Rightarrow> (err, f_content f))"

lemma modifyRCConfLocal_empty:
  "\<exists>f. modifyRCConfLocal s (opened nm []) = (None, f) \<and> f_name f = nm \<and>
       f_content f = ''pkg_scripts='' @ Name (Config s) @ ''\<newline>''"
  using modifyRCConfLocal_last_line [OF short_lines_Nil lines_loop_Nil, of s nm]
  by (auto simp: registered_def pref_def)

lemma configureSysStartup_empty:
  assumes "injected w OpOpenFile filename = None"
    and "files w filename = None \<or> (\<exists>m. files w filename = Some (RegFile [] m))"
  shows "\<exists>w' m. configureSysStartup s w = (None, w') \<and>
           files w' filename =
             Some (RegFile (''pkg_scripts='' @ Name (Config s) @ ''\<newline>'') m) \<and>
           (\<forall>q. q \<noteq> filename \<longrightarrow> files w' q = files w q) \<and> injected w' = injected w"
proof -
  from modifyRCConfLocal_empty [of s filename] obtain f where
    f: "modifyRCConfLocal s (opened filename []) = (None, f)" "f_name f = filename"
       "f_content f = ''pkg_scripts='' @ Name (Config s) @ ''\<newline>''"
    by blast
  from assms(2) show ?thesis
  proof
    assume "files w filename = None"
    with assms(1) f show ?thesis
      by (simp add: configureSysStartup_def os_OpenFile_def flush_def opened_def)
  next
    assume "\<exists>m. files w filename = Some (RegFile [] m)"
    then obtain m where "files w filename = Some (RegFile [] m)"
      by blast
    with assms(1) f show ?thesis
      by (simp add: configureSysStartup_def os_OpenFile_def flush_def opened_def)
  qed
qed

text \<open>
  Claim C7.  For every service name, \<open>modifyRCConfLocal\<close> on an empty file returns \<open>nil\<close>
  and leaves the content \<open>pkg_scripts=\<close>, the name and a newline, and nothing else.  So
  does \<open>configureSysStartup\<close> when \<open>/etc/rc.conf.local\<close> does not exist (it is created)
  or is empty, and opening it does not fail.
\<close>

theorem registration_empty_file:
  "(\<exists>f. modifyRCConfLocal s (opened nm []) = (None, f) \<and>
        f_content f = ''pkg_scripts='' @ Name (Config s) @ ''\<newline>'') \<and>
   (injected w OpOpenFile filename = None \<and>
    (files w filename = None \<or> (\<exists>m. files w filename = Some (RegFile [] m))) \<longrightarrow>
      (\<exists>w' m. configureSysStartup s w = (None, w') \<and>
          files w' filename =
            Some (RegFile (''pkg_scripts='' @ Name (Config s) @ ''\<newline>'') m)))"
  using modifyRCConfLocal_empty [of s nm] configureSysStartup_empty [of w s]
  by blast

theorem registration_empty_file_witness:
  "(\<exists>w' m. configureSysStartup (example_service Map.empty :: unit openbsdRunComService)
              (example_world Map.empty no_faults) = (None, w') \<and>
          files w' filename = Some (RegFile ''pkg_scripts=AdGuardHome\<newline>'' m)) \<and>
   (\<exists>w' m. configureSysStartup (example_service Map.empty :: unit openbsdRunComService)
              (example_world [filename \<mapsto> RegFile [] 420] no_faults) = (None, w') \<and>
          files w' filename = Some (RegFile ''pkg_scripts=AdGuardHome\<newline>'' m))"
proof -
  let ?s = "example_service Map.empty :: unit openbsdRunComService"
  have n: "Name (Config ?s) = ''AdGuardHome''"
    by (simp add: example_service_def)
  from registration_empty_file [of ?s filename "example_world Map.empty no_faults"]
  have 1: "\<exists>w' m. configureSysStartup ?s (example_world Map.empty no_faults) = (None, w') \<and>
          files w' filename = Some (RegFile ''pkg_scripts=AdGuardHome\<newline>'' m)"
    by (simp add: n example_world_def no_faults_def)
  from registration_empty_file
         [of ?s filename "example_world [filename \<mapsto> RegFile [] 420] no_faults"]
  have 2: "\<exists>w' m. configureSysStartup ?s
              (example_world [filename \<mapsto> RegFile [] 420] no_faults) = (None, w') \<and>
          files w' filename = Some (RegFile ''pkg_scripts=AdGuardHome\<newline>'' m)"
    by (simp add: n example_world_def no_faults_def)
  from 1 2 show ?thesis
    by blast
qed

lemma run_registration_small:
  assumes "c \<noteq> []" and "length c \<le> startBufSize"
    and "lines_loop (- 2) [] c = (p, ln, rest)"
  shows "run_registration n c = (None, registered p ln n c)"
  using modifyRCConfLocal_small [OF assms, of "service_named n" filename]
  by (auto simp: run_registration_def service_named_def)


lemma startup_list_small:
  assumes "length c \<le> startBufSize" and "lines_loop (- 2) [] c = (p, ln, rest)"
  shows "startup_list c =
           (if p = 0 then Some (strings_Split (drop (length pref) ln) (CHR '' '')) else None)"
proof -
  from assms(1) have "short_lines c"
    by (intro short_lines_small) (simp add: startBufSize_def MaxScanTokenSize_def)
  from startup_list_lines [OF this] assms(2) show ?thesis
    by simp
qed



text \<open>
  Claim C2 fails on the code.  The scanner has read the file to its end (a file of up to
  4096 bytes is read at once), so \<open>file.Seek(-1, 1)\<close> goes to the last byte of the file,
  not to the end of the recognized line.  When another line follows the recognized line,
  the name is appended to the last line of the file and the recognized list stays
  \<open>[a, b]\<close>.  When the file does not end with a newline, the last byte of the line is
  overwritten: the entry \<open>b\<close> is lost.
\<close>

theorem registration_not_last_line:
  "run_registration ''c'' ''pkg_scripts=a b\<newline>sshd_flags=NO\<newline>''
     = (None, ''pkg_scripts=a b\<newline>sshd_flags=NO c\<newline>'') \<and>
   startup_list ''pkg_scripts=a b\<newline>sshd_flags=NO c\<newline>'' = Some [''a'', ''b''] \<and>
   run_registration ''c'' ''pkg_scripts=a b'' = (None, ''pkg_scripts=a  c\<newline>'') \<and>
   startup_list ''pkg_scripts=a  c\<newline>'' = Some [''a'', [], ''c'']"
proof -
  have l1: "lines_loop (- 2) [] ''pkg_scripts=a b\<newline>sshd_flags=NO\<newline>''
              = (0, ''pkg_scripts=a b'', ''sshd_flags=NO\<newline>'')"
    by code_simp
  have r1: "registered 0 ''pkg_scripts=a b'' ''c'' ''pkg_scripts=a b\<newline>sshd_flags=NO\<newline>''
              = ''pkg_scripts=a b\<newline>sshd_flags=NO c\<newline>''"
    by code_simp
  have l2: "lines_loop (- 2) [] ''pkg_scripts=a b\<newline>sshd_flags=NO c\<newline>''
              = (0, ''pkg_scripts=a b'', ''sshd_flags=NO c\<newline>'')"
    by code_simp
  have l3: "lines_loop (- 2) [] ''pkg_scripts=a b'' = (0, ''pkg_scripts=a b'', [])"
    by code_simp
  have r3: "registered 0 ''pkg_scripts=a b'' ''c'' ''pkg_scripts=a b'' = ''pkg_scripts=a  c\<newline>''"
    by code_simp
  have l4: "lines_loop (- 2) [] ''pkg_scripts=a  c\<newline>'' = (0, ''pkg_scripts=a  c'', [])"
    by code_simp
  have s1: "strings_Split (drop (length pref) ''pkg_scripts=a b'') (CHR '' '') = [''a'', ''b'']"
    by code_simp
  have s4: "strings_Split (drop (length pref) ''pkg_scripts=a  c'') (CHR '' '') = [''a'', [], ''c'']"
    by code_simp
  have 1: "run_registration ''c'' ''pkg_scripts=a b\<newline>sshd_flags=NO\<newline>''
             = (None, ''pkg_scripts=a b\<newline>sshd_flags=NO c\<newline>'')"
    using run_registration_small [OF _ _ l1, of "''c''"] by (simp add: r1 startBufSize_def)
  have 2: "startup_list ''pkg_scripts=a b\<newline>sshd_flags=NO c\<newline>'' = Some [''a'', ''b'']"
    using startup_list_small [OF _ l2] by (simp add: s1 startBufSize_def)
  have 3: "run_registration ''c'' ''pkg_scripts=a b'' = (None, ''pkg_scripts=a  c\<newline>'')"
    using run_registration_small [OF _ _ l3, of "''c''"] by (simp add: r3 startBufSize_def)
  have 4: "startup_list ''pkg_scripts=a  c\<newline>'' = Some [''a'', [], ''c'']"
    using startup_list_small [OF _ l4] by (simp add: s4 startBufSize_def)
  from 1 2 3 4 show ?thesis
    by simp
qed







lemma flush_keeps:
  "injected (flush w f) = injected w"
  "files w q \<noteq> None \<Longrightarrow> files (flush w f) q \<noteq> None"
  by (auto simp: flush_def split: option.splits node.splits)

lemma os_Chmod_keeps:
  assumes "os_Chmod w path mode = (e, w')"
  shows "injected w' = injected w" and "files w q \<noteq> None \<Longrightarrow> files w' q \<noteq> None"
  using assms by (auto simp: os_Chmod_def split: option.splits node.splits)

lemma os_OpenFile_keeps:
  assumes "os_OpenFile w path perm = (r, w')"
  shows "injected w' = injected w" and "files w q \<noteq> None \<Longrightarrow> files w' q \<noteq> None"
  using assms by (auto simp: os_OpenFile_def split: option.splits node.splits)

lemma configureSysStartup_keeps:
  assumes "configureSysStartup s w = (e, w')"
  shows "injected w' = injected w" and "files w q \<noteq> None \<Longrightarrow> files w' q \<noteq> None"
proof -
  obtain r w1 where o: "os_OpenFile w filename 420 = (r, w1)"
    by (cases "os_OpenFile w filename 420") auto
  note k = os_OpenFile_keeps [OF o]
  from assms o show "injected w' = injected w"
    using k(1) by (auto simp: configureSysStartup_def flush_keeps split: sum.splits if_splits prod.splits)
  assume "files w q \<noteq> None"
  then have w1: "files w1 q \<noteq> None"
    by (rule k(2))
  show "files w' q \<noteq> None"
  proof (cases r)
    case (Inl err)
    with assms o w1 show ?thesis
      by (simp add: configureSysStartup_def)
  next
    case (Inr fl)
    show ?thesis
    proof (cases "f_isdir fl")
      case True
      with assms o w1 Inr show ?thesis
        by (simp add: configureSysStartup_def)
    next
      case False
      obtain e2 f2 where m: "modifyRCConfLocal s fl = (e2, f2)"
        by (cases "modifyRCConfLocal s fl") auto
      with assms o Inr False have "w' = flush w1 f2"
        by (simp add: configureSysStartup_def)
      with w1 show ?thesis
        by (simp add: flush_keeps(2))
    qed
  qed
qed

lemma os_Stat_not_exist:
  assumes "is_ErrNotExist (case os_Stat w path of Inl err \<Rightarrow> Some err | Inr info \<Rightarrow> None)"
  shows "injected w OpStat path = None \<and> files w path = None"
  using assms by (auto simp: is_ErrNotExist_def os_Stat_def split: option.splits)

lemma writeScript_success:
  assumes "writeScript s w = (Return None, w')"
  shows "\<exists>path. scriptPath s = Inr path \<and> injected w' = injected w \<and>
               injected w OpStat path = None \<and> files w' path \<noteq> None"
proof -
  from assms obtain path where sp: "scriptPath s = Inr path"
    by (cases "scriptPath s") (auto simp: writeScript_def)
  from assms sp have ne: "is_ErrNotExist (case os_Stat w path of Inl err \<Rightarrow> Some err | Inr info \<Rightarrow> None)"
    by (auto simp: writeScript_def split: if_splits)
  note st = os_Stat_not_exist [OF ne]
  from assms sp ne obtain ep t f w1 out where
    ep: "execPath s w = Inr ep" and t: "template s = Some t"
    and cr: "os_Create w path = (Inr f, w1)"
    and ex: "template_Execute t \<lparr>t_Config = Config s, t_Path = ep,
               t_SvcInfo = getString (Option (Config s)) ''SvcInfo'' (String s)\<rparr> = (out, None)"
    and ch: "os_Chmod (flush w1 (file_WriteString f out)) path 493 = (None, w')"
    by (auto simp: writeScript_def Let_def errors_Annotate_def
             split: sum.splits option.splits prod.splits)
  from cr st have w1: "injected w1 = injected w" "files w1 path \<noteq> None"
    by (auto simp: os_Create_def split: option.splits node.splits)
  let ?w2 = "flush w1 (file_WriteString f out)"
  have "injected ?w2 = injected w" and "files ?w2 path \<noteq> None"
    using w1 by (simp_all add: flush_keeps)
  with os_Chmod_keeps [OF ch]
  have "injected w' = injected w" and "files w' path \<noteq> None"
    by auto
  with sp st show ?thesis
    by simp
qed

text \<open>
  Claim C3.  After an \<open>Install\<close> that returned \<open>nil\<close>, a second \<open>Install\<close> of the same
  service fails with the error \<open>script already exists at path\<close> (annotated by
  \<open>Install\<close>) and leaves the world, and with it the startup configuration, as it was.
\<close>

theorem Install_twice:
  assumes "Install s w = (Return None, w1)"
  shows "\<exists>path. scriptPath s = Inr path \<and>
           Install s w1 =
             (Return (Some (Wrap (''installing openbsd-runcom '' @ Name (Config s) @ '' service'')
                              (Errorf (''script already exists at '' @ path)))), w1)"
proof -
  from assms obtain w0 where ws: "writeScript s w = (Return None, w0)"
    and cf: "configureSysStartup s w0 = (None, w1)"
    by (auto simp: Install_def annotate_def errors_Annotate_def
             split: prod.splits outcome.splits option.splits)
  from writeScript_success [OF ws] obtain path where
    sp: "scriptPath s = Inr path" and i0: "injected w0 = injected w"
    and st: "injected w OpStat path = None" and f0: "files w0 path \<noteq> None"
    by blast
  from configureSysStartup_keeps [OF cf] i0 st f0
  have "injected w1 OpStat path = None" and "files w1 path \<noteq> None"
    by auto
  then have "\<not> is_ErrNotExist (case os_Stat w1 path of Inl err \<Rightarrow> Some err | Inr info \<Rightarrow> None)"
    by (auto simp: os_Stat_def is_ErrNotExist_def)
  from Install_collision [OF sp this] sp show ?thesis
    by simp
qed


lemma example_writeScript:
  "\<exists>w1. writeScript (example_service Map.empty :: unit openbsdRunComService)
           (example_world Map.empty no_faults) = (Return None, w1) \<and>
        injected w1 OpOpenFile filename = None \<and> files w1 filename = None"
proof -
  let ?s = "example_service Map.empty :: unit openbsdRunComService"
  let ?w = "example_world Map.empty no_faults"
  have t: "template ?s = template_Parse runComScript"
    by (rule template_default) (simp add: example_service_def)
  have st: "os_Stat ?w ''/etc/rc.d/AdGuardHome'' = Inl (PathError ''stat'' ''/etc/rc.d/AdGuardHome'' ENOENT)"
    by (simp add: os_Stat_def example_world_def no_faults_def)
  have cr: "os_Create ?w ''/etc/rc.d/AdGuardHome'' =
              (Inr (opened ''/etc/rc.d/AdGuardHome'' []),
               ?w\<lparr>files := [''/etc/rc.d/AdGuardHome'' \<mapsto> RegFile [] 438]\<rparr>)"
    by (simp add: os_Create_def example_world_def no_faults_def)
  show ?thesis
    by (simp add: writeScript_def example_scriptPath st is_ErrNotExist_def example_execPath t
                  template_Parse_runComScript cr lookup_field_def Let_def flush_def opened_def
                  file_WriteString_def os_Chmod_def errors_Annotate_def filename_def)
       (simp add: example_world_def no_faults_def)
qed

theorem Install_twice_witness:
  "fst (Install (example_service Map.empty :: unit openbsdRunComService)
          (example_world Map.empty no_faults)) = Return None \<and>
   Install (example_service Map.empty :: unit openbsdRunComService)
     (snd (Install (example_service Map.empty :: unit openbsdRunComService)
             (example_world Map.empty no_faults)))
     = (Return (Some (Wrap ''installing openbsd-runcom AdGuardHome service''
                        (Errorf ''script already exists at /etc/rc.d/AdGuardHome''))),
        snd (Install (example_service Map.empty :: unit openbsdRunComService)
               (example_world Map.empty no_faults)))"
proof -
  let ?s = "example_service Map.empty :: unit openbsdRunComService"
  let ?w = "example_world Map.empty no_faults"
  have n: "Name (Config ?s) = ''AdGuardHome''"
    by (simp add: example_service_def)
  from example_writeScript obtain w1 where
    ws: "writeScript ?s ?w = (Return None, w1)"
    and w1: "injected w1 OpOpenFile filename = None" "files w1 filename = None"
    by blast
  from configureSysStartup_empty [of w1 ?s] w1 obtain w2 where
    cf: "configureSysStartup ?s w1 = (None, w2)"
    by blast
  have i: "Install ?s ?w = (Return None, w2)"
    by (simp add: Install_def ws cf annotate_None)
  then have h: "Install ?s ?w = (Return None, snd (Install ?s ?w))"
    by simp
  from Install_twice [OF h] i show ?thesis
    by (simp add: n example_scriptPath)
qed

end
